theory Spec2Isabelle
  imports Complex_Main
begin

section \<open>Data model\<close>

text \<open>
  The repository holds two generations of the same automation: the single-file script
  \<^verbatim>\<open>main.py\<close> (OpenCV template matching, no cache) and the package \<^verbatim>\<open>src/\<close>
  (\<^verbatim>\<open>icon_detector.py\<close>, \<^verbatim>\<open>notepad.py\<close>; matching delegated to a desktop bot, with a
  coordinate cache). Both are embedded here, each function under its own name; where the
  two files define a function of the same name the one of \<^verbatim>\<open>main.py\<close> carries the
  suffix \<open>_main\<close>.

  Everything the program does to the desktop goes through library calls. Each such call
  is an \<open>event\<close> appended to the \<open>trace\<close> of the \<open>world\<close>; what a query returns is
  given by an oracle of the environment, a function of the world at the moment of the
  call (its clock and all the events so far), so that the theorems hold for every
  behaviour of the desktop. Confidences and thresholds are real numbers (the rounding of
  floating point is not modelled). Time is counted in milliseconds and advances by the
  program's own sleeps only.
\<close>

type_synonym coords = "int \<times> int"

record window =
  hwnd :: nat
  title :: string
  visible :: bool
  win_left :: int
  win_top :: int
  win_width :: int
  win_height :: int

datatype event =
    Sleep nat
  | BotFind string real
  | BotGetCoords string real
  | GetWindowsWithTitle string
  | DoubleClick int int
  | Click int int
  | Hotkey "string list"
  | Press string
  | TypeWrite string
  | ClipboardCopy string
  | Activate window
  | CloseWindow window
  | ScreenGrab
  | Print string
  | PrintFound string real

record world =
  icon_cache :: "coords option"
  clock :: nat
  trace :: "event list"

text \<open>
  A numpy array as far as the program looks at it: its \<^verbatim>\<open>shape\<close> tuple, its element
  type (\<^verbatim>\<open>cv2.imread\<close> with \<^verbatim>\<open>cv2.IMREAD_UNCHANGED\<close> delivers 8-bit and 16-bit
  images) and its pixels (opaque to the program, which hands them to OpenCV). A screen
  capture is its grayscale array's two dimensions together with what template matching on
  it yields: \<open>match_template S t\<close> stands for \<^verbatim>\<open>max_val\<close> and \<^verbatim>\<open>max_loc\<close> of
  \<^verbatim>\<open>cv2.minMaxLoc\<close> on the result of \<^verbatim>\<open>cv2.matchTemplate(..., cv2.TM_CCOEFF_NORMED,
  mask=mask)\<close> for template \<open>t\<close>. An exception is an \<open>error\<close>: what Python itself raises
  (an index out of range, \<^verbatim>\<open>int(None)\<close>) and the \<^verbatim>\<open>cv2.error\<close> with which OpenCV
  rejects an array it cannot work on.
  A post is the dictionary of the API with its three fields.
\<close>

record post =
  post_id :: int
  post_title :: string
  post_body :: string

datatype dtype = UInt8 | UInt16

record ndarray =
  shape :: "nat list"
  dtype :: dtype
  pixels :: "nat list"

record screen_capture =
  scr_rows :: nat
  scr_cols :: nat
  match_template :: "ndarray \<Rightarrow> real \<times> coords"

datatype error = IndexError | TypeError | CvError

text \<open>
  The oracles: \<open>bot_find\<close> is \<^verbatim>\<open>bot.find(label, matching=threshold, ...)\<close>,
  \<open>bot_coords\<close> is \<^verbatim>\<open>bot.get_element_coords(label, matching=threshold)\<close>: a pair
  whose components are numbers or, when the bot does not see the element any more, both
  \<^verbatim>\<open>None\<close> (the outer \<open>None\<close> stands for a falsy result, which the program guards
  against), \<open>windows_with_title\<close> is \<^verbatim>\<open>gw.getWindowsWithTitle(title)\<close> and
  \<open>grab\<close> is the screen capture \<^verbatim>\<open>sct.grab(monitor)\<close> of \<^verbatim>\<open>main.py\<close>;
  \<open>path_join p f\<close> is pathlib's \<^verbatim>\<open>str(p / f)\<close> and \<open>PROJECT_PATH\<close> the directory that
  \<^verbatim>\<open>main.py\<close> computes from the user's home.
  The constants of the missing \<^verbatim>\<open>src/config.py\<close> are parameters too:
  \<open>MATCHING_THRESHOLD\<close> and \<open>SPACING\<close> (milliseconds).
\<close>

record env =
  bot_find :: "world \<Rightarrow> string \<Rightarrow> real \<Rightarrow> bool"
  bot_coords :: "world \<Rightarrow> string \<Rightarrow> real \<Rightarrow> (real option \<times> real option) option"
  windows_with_title :: "world \<Rightarrow> string \<Rightarrow> window list"
  grab :: "world \<Rightarrow> screen_capture"
  path_join :: "string \<Rightarrow> string \<Rightarrow> string"
  PROJECT_PATH :: string
  MATCHING_THRESHOLD :: real
  SPACING :: nat

text \<open>
  \<open>emit\<close> performs one library call: it appends the event, and a \<open>Sleep\<close> moves the
  clock. \<open>emits\<close> performs a straight-line sequence of calls.
\<close>

definition emit :: "event \<Rightarrow> world \<Rightarrow> world" where
  "emit e w = w\<lparr>clock := clock w + (case e of Sleep d \<Rightarrow> d | _ \<Rightarrow> 0), trace := trace w @ [e]\<rparr>"

definition emits :: "event list \<Rightarrow> world \<Rightarrow> world" where
  "emits es w = fold emit es w"

definition sleep :: "nat \<Rightarrow> world \<Rightarrow> world" where
  "sleep d w = emit (Sleep d) w"

text \<open>
  Python's \<^verbatim>\<open>int(x)\<close> on a number truncates towards zero; \<^verbatim>\<open>int(None)\<close> raises
  \<^verbatim>\<open>TypeError\<close>.
\<close>

definition py_int :: "real \<Rightarrow> int" where
  "py_int x = (if 0 \<le> x then \<lfloor>x\<rfloor> else \<lceil>x\<rceil>)"

definition int_of :: "real option \<Rightarrow> error + int" where
  "int_of v = (case v of None \<Rightarrow> Inl TypeError | Some x \<Rightarrow> Inr (py_int x))"

section \<open>Python strings\<close>

text \<open>
  Titles are taken to be ASCII: \<^verbatim>\<open>str.lower()\<close> maps the letters A to Z. \<open>endswith\<close>
  is \<^verbatim>\<open>str.endswith\<close>, \<open>py_in sub s\<close> is \<^verbatim>\<open>sub in s\<close> and \<open>py_str\<close> is the
  decimal \<^verbatim>\<open>str\<close> of an integer, as an f-string formats it.
\<close>

definition lower_char :: "char \<Rightarrow> char" where
  "lower_char c =
     (case map_of (zip ''ABCDEFGHIJKLMNOPQRSTUVWXYZ'' ''abcdefghijklmnopqrstuvwxyz'') c of
        Some d \<Rightarrow> d | None \<Rightarrow> c)"

definition py_lower :: "string \<Rightarrow> string" where
  "py_lower s = map lower_char s"

definition endswith :: "string \<Rightarrow> string \<Rightarrow> bool" where
  "endswith s suffix \<longleftrightarrow>
     length suffix \<le> length s \<and> drop (length s - length suffix) s = suffix"

fun py_in :: "string \<Rightarrow> string \<Rightarrow> bool" where
  "py_in sub [] = (sub = [])"
| "py_in sub (c # cs) = (take (length sub) (c # cs) = sub \<or> py_in sub cs)"

fun digits :: "nat \<Rightarrow> string" where
  "digits n = (if n < 10 then [''0123456789'' ! n]
               else digits (n div 10) @ [''0123456789'' ! (n mod 10)])"

declare digits.simps [simp del]

definition py_str :: "int \<Rightarrow> string" where
  "py_str i = (if i < 0 then CHR ''-'' # digits (nat (- i)) else digits (nat i))"

section \<open>\<^verbatim>\<open>src/icon_detector.py\<close>\<close>

definition set_cache :: "coords \<Rightarrow> world \<Rightarrow> world" where
  "set_cache c w = w\<lparr>icon_cache := Some c\<rparr>"

definition invalidate_cache :: "world \<Rightarrow> world" where
  "invalidate_cache w = w\<lparr>icon_cache := None\<rparr>"

text \<open>
  The inner loop of \<^verbatim>\<open>find_icon\<close> over the labels at one threshold. A label that the
  bot finds but whose coordinates come back falsy is passed over. Coordinates that come
  back as a pair are truthy, also the pair of two \<^verbatim>\<open>None\<close>: then \<^verbatim>\<open>int(coords[0])\<close>
  raises.
\<close>

fun find_labels ::
  "env \<Rightarrow> bool \<Rightarrow> real \<Rightarrow> string list \<Rightarrow> world \<Rightarrow> error + coords option \<times> world" where
  "find_labels E click thr [] w = Inr (None, w)"
| "find_labels E click thr (l # ls) w =
     (let w1 = emit (BotFind l thr) w in
      if bot_find E w l thr then
        (let w2 = emit (BotGetCoords l thr) w1 in
         case bot_coords E w1 l thr of
           Some (cx, cy) \<Rightarrow>
             (case int_of cx of
                Inl e \<Rightarrow> Inl e
              | Inr x \<Rightarrow>
                  (case int_of cy of
                     Inl e \<Rightarrow> Inl e
                   | Inr y \<Rightarrow>
                       (let w3 = set_cache (x, y) w2;
                            w4 = (if click then emit (DoubleClick x y) w3 else w3)
                        in Inr (Some (x, y), w4))))
         | None \<Rightarrow> find_labels E click thr ls w2)
      else find_labels E click thr ls w1)"

text \<open>The outer loop over \<^verbatim>\<open>thresholds\<close>.\<close>

fun find_thresholds ::
  "env \<Rightarrow> bool \<Rightarrow> real list \<Rightarrow> string list \<Rightarrow> world \<Rightarrow> error + coords option \<times> world" where
  "find_thresholds E click [] ls w = Inr (None, w)"
| "find_thresholds E click (thr # thrs) ls w =
     (case find_labels E click thr ls w of
        Inl e \<Rightarrow> Inl e
      | Inr (Some c, w') \<Rightarrow> Inr (Some c, w')
      | Inr (None, w') \<Rightarrow> find_thresholds E click thrs ls w')"

definition find_icon ::
  "env \<Rightarrow> string list \<Rightarrow> bool \<Rightarrow> bool \<Rightarrow> world \<Rightarrow> error + coords option \<times> world" where
  "find_icon E template_labels use_cache click w =
     (case (if use_cache then icon_cache w else None) of
        Some (x, y) \<Rightarrow> Inr (Some (x, y), if click then emit (DoubleClick x y) w else w)
      | None \<Rightarrow>
          find_thresholds E click
            [MATCHING_THRESHOLD E, MATCHING_THRESHOLD E - 0.1] template_labels w)"

section \<open>\<^verbatim>\<open>src/notepad.py\<close>\<close>

text \<open>
  \<^verbatim>\<open>_wait()\<close> sleeps for \<open>SPACING\<close>. A window object is the snapshot taken when the
  windows were listed. The polling loops run until the clock passes their deadline; with
  \<open>SPACING = 0\<close> the clock of the model stands still and such a loop need not end, so
  they are partial functions and every caller returns an option. \<^verbatim>\<open>launch_notepad\<close>
  catches nothing: an exception of \<^verbatim>\<open>find_icon\<close> leaves it.
\<close>

definition wait :: "env \<Rightarrow> world \<Rightarrow> world" where
  "wait E w = sleep (SPACING E) w"




definition is_notepad_title :: "string \<Rightarrow> bool" where
  "is_notepad_title t \<longleftrightarrow> py_lower t = ''notepad'' \<or> endswith (py_lower t) '' - notepad''"

definition get_notepad_windows :: "env \<Rightarrow> world \<Rightarrow> window list \<times> world" where
  "get_notepad_windows E w =
     (filter (\<lambda>win. is_notepad_title (title win)) (windows_with_title E w ''Notepad''),
      emit (GetWindowsWithTitle ''Notepad'') w)"


partial_function (option) verify_loop ::
  "env \<Rightarrow> coords option \<Rightarrow> nat \<Rightarrow> world \<Rightarrow> (bool \<times> world) option" where
  "verify_loop E coords timeout w =
     (if clock w < timeout then
        (case get_notepad_windows E w of
           (active_windows, w1) \<Rightarrow>
             if list_ex visible active_windows then
               Some (True, wait E (case coords of Some c \<Rightarrow> set_cache c w1 | None \<Rightarrow> w1))
             else verify_loop E coords timeout (wait E w1))
      else Some (False, w))"

definition verify_notepad_launched :: "env \<Rightarrow> coords option \<Rightarrow> world \<Rightarrow> (bool \<times> world) option" where
  "verify_notepad_launched E coords w = verify_loop E coords (clock w + 5000) w"

text \<open>
  The loop \<^verbatim>\<open>for attempt in range(3)\<close> of \<^verbatim>\<open>launch_notepad\<close> with the
  \<^verbatim>\<open>return False\<close> that follows it; the third argument counts the attempts left.
\<close>

fun launch_attempts ::
  "env \<Rightarrow> string list \<Rightarrow> nat \<Rightarrow> world \<Rightarrow> (error + bool \<times> world) option" where
  "launch_attempts E template_labels 0 w = Some (Inr (False, w))"
| "launch_attempts E template_labels (Suc n) w =
     (case find_icon E template_labels False False w of
        Inl e \<Rightarrow> Some (Inl e)
      | Inr (Some c, w1) \<Rightarrow>
          (case verify_notepad_launched E (Some c) w1 of
             None \<Rightarrow> None
           | Some (True, w2) \<Rightarrow> Some (Inr (True, w2))
           | Some (False, w2) \<Rightarrow> launch_attempts E template_labels n (wait E w2))
      | Inr (None, w1) \<Rightarrow> launch_attempts E template_labels n (wait E w1))"

definition launch_notepad ::
  "env \<Rightarrow> string list \<Rightarrow> world \<Rightarrow> (error + bool \<times> world) option" where
  "launch_notepad E template_labels w =
     (case find_icon E template_labels True False w of
        Inl e \<Rightarrow> Some (Inl e)
      | Inr (Some c, w1) \<Rightarrow>
          (case verify_notepad_launched E (Some c) w1 of
             None \<Rightarrow> None
           | Some (True, w2) \<Rightarrow> Some (Inr (True, w2))
           | Some (False, w2) \<Rightarrow> launch_attempts E template_labels 3 (invalidate_cache w2))
      | Inr (None, w1) \<Rightarrow> launch_attempts E template_labels 3 w1)"




definition post_content :: "post \<Rightarrow> string" where
  "post_content p = ''Title: '' @ post_title p @ [CHR 0x0A, CHR 0x0A] @ post_body p"

definition post_filename :: "post \<Rightarrow> string" where
  "post_filename p = ''post_'' @ py_str (post_id p) @ ''.txt''"


section \<open>\<^verbatim>\<open>main.py\<close>: the template matcher\<close>

definition MATCH_THRESHOLD :: real where
  "MATCH_THRESHOLD = 0.8"

record best_match =
  best_match_score :: real
  best_match_loc :: "coords option"
  best_match_dims :: "nat \<times> nat"
  best_template_name :: string

definition best_init :: best_match where
  "best_init = \<lparr>best_match_score = 0, best_match_loc = None, best_match_dims = (0, 0),
     best_template_name = []\<rparr>"

text \<open>
  \<^verbatim>\<open>template_gray.shape[0] > screen_gray.shape[0] or template_gray.shape[1] >
  screen_gray.shape[1]\<close>; the grayscale template has the first two dimensions of the
  template.
\<close>

definition too_big :: "screen_capture \<Rightarrow> ndarray \<Rightarrow> bool" where
  "too_big S t \<longleftrightarrow> shape t ! 0 > scr_rows S \<or> shape t ! 1 > scr_cols S"

definition skip_message :: "string \<Rightarrow> string" where
  "skip_message name = ''Skipping template '' @ name @ '', it's larger than the screen.''"

text \<open>
  \<^verbatim>\<open>template_bgr\<close>: the first three channels \<^verbatim>\<open>template[:, :, :3]\<close> of a template
  with an alpha channel, the template itself otherwise.

  What OpenCV requires of the arrays. \<^verbatim>\<open>cv2.cvtColor(a, cv2.COLOR_BGR2GRAY)\<close> raises
  \<^verbatim>\<open>cv2.error\<close> unless \<open>a\<close> is a non-empty image of three or four channels;
  \<^verbatim>\<open>cv2.matchTemplate\<close> raises it unless the template has the element type of the image
  searched, which for the grayscale capture is 8 bits. On 8-bit images of three or four
  channels the two calls are taken to succeed.
\<close>

definition template_bgr :: "ndarray \<Rightarrow> ndarray" where
  "template_bgr t = (if shape t ! 2 = 4 then t\<lparr>shape := (shape t)[2 := 3]\<rparr> else t)"

definition cvtColor_raises :: "ndarray \<Rightarrow> bool" where
  "cvtColor_raises a \<longleftrightarrow>
     length (shape a) \<noteq> 3 \<or> shape a ! 0 = 0 \<or> shape a ! 1 = 0 \<or>
     (shape a ! 2 \<noteq> 3 \<and> shape a ! 2 \<noteq> 4)"

definition matchTemplate_raises :: "ndarray \<Rightarrow> bool" where
  "matchTemplate_raises t \<longleftrightarrow> dtype t \<noteq> UInt8"

text \<open>
  The loop over the templates. \<^verbatim>\<open>template.shape[2]\<close> is read first: on an array of
  fewer than three dimensions (a grayscale image read with \<^verbatim>\<open>cv2.IMREAD_UNCHANGED\<close>)
  it raises \<^verbatim>\<open>IndexError\<close>. The conversion to grayscale comes next, then the size check,
  and the match last.
\<close>

fun match_loop ::
  "screen_capture \<Rightarrow> (string \<times> ndarray) list \<Rightarrow> best_match \<Rightarrow> world \<Rightarrow> error + best_match \<times> world" where
  "match_loop S [] b w = Inr (b, w)"
| "match_loop S ((name, t) # ts) b w =
     (if length (shape t) < 3 then Inl IndexError
      else if cvtColor_raises (template_bgr t) then Inl CvError
      else if too_big S t then match_loop S ts b (emit (Print (skip_message name)) w)
      else if matchTemplate_raises t then Inl CvError
      else
        (let (wd, ht) = (shape t ! 1, shape t ! 0);
             (max_val, max_loc) = match_template S t
         in if max_val > best_match_score b
            then match_loop S ts
                   \<lparr>best_match_score = max_val, best_match_loc = Some max_loc,
                    best_match_dims = (wd, ht), best_template_name = name\<rparr> w
            else match_loop S ts b w))"

definition find_icon_with_multiple_templates ::
  "env \<Rightarrow> (string \<times> ndarray) list \<Rightarrow> world \<Rightarrow> error + coords option \<times> world" where
  "find_icon_with_multiple_templates E templates w =
     (let S = grab E w in
      case match_loop S templates best_init (emit ScreenGrab w) of
        Inl e \<Rightarrow> Inl e
      | Inr (b, w') \<Rightarrow>
          if best_match_score b \<ge> MATCH_THRESHOLD then
            (case best_match_loc b of
               None \<Rightarrow> Inl TypeError
             | Some (lx, ly) \<Rightarrow>
                 (let (wd, ht) = best_match_dims b;
                      center_x = lx + int (wd div 2);
                      center_y = ly + int (ht div 2)
                  in Inr (Some (center_x, center_y),
                          emit (PrintFound (best_template_name b) (best_match_score b)) w')))
          else Inr (None, w'))"

section \<open>\<^verbatim>\<open>main.py\<close>: windows, launch and the workflow\<close>

definition RETRY_LIMIT :: nat where
  "RETRY_LIMIT = 3"

definition RETRY_DELAY_S :: nat where
  "RETRY_DELAY_S = 1"

definition is_notepad_title_main :: "string \<Rightarrow> bool" where
  "is_notepad_title_main t \<longleftrightarrow>
     (let lowered = py_lower t in
      (lowered = ''notepad'' \<or> endswith lowered '' - notepad'' \<or> py_in ''notepad'' lowered) \<and>
      (\<not> py_in ''cursor'' lowered \<and> \<not> py_in ''code'' lowered \<and> \<not> py_in ''editor'' lowered))"

definition get_notepad_windows_main :: "env \<Rightarrow> world \<Rightarrow> window list \<times> world" where
  "get_notepad_windows_main E w =
     (filter (\<lambda>win. is_notepad_title_main (title win)) (windows_with_title E w ''Notepad''),
      emit (GetWindowsWithTitle ''Notepad'') w)"

definition not_notepad :: "window \<Rightarrow> bool" where
  "not_notepad win \<longleftrightarrow>
     py_in ''cursor'' (py_lower (title win)) \<or> py_in ''code'' (py_lower (title win))"

text \<open>The first loop of \<^verbatim>\<open>close_existing_notepad\<close>.\<close>

fun close_each_existing :: "env \<Rightarrow> window list \<Rightarrow> world \<Rightarrow> world" where
  "close_each_existing E [] w = w"
| "close_each_existing E (win # rest) w =
     (if visible win then
        (if not_notepad win then
           close_each_existing E rest (emit (Print (''Skipping non-Notepad window: '' @ title win)) w)
         else
           (let w1 = emits [CloseWindow win, Sleep 500] w;
                w2 = snd (get_notepad_windows_main E w1);
                w3 = emits [Press ''n'', Sleep 300] w2
            in close_each_existing E rest w3))
      else close_each_existing E rest w)"

text \<open>
  The body of the loops that fall back to Alt+F4; \<open>pause\<close> is the last sleep (0.3 s in
  \<^verbatim>\<open>close_existing_notepad\<close>, 0.5 s in \<^verbatim>\<open>close_notepad_fully\<close>).
\<close>

definition alt_f4 :: "nat \<Rightarrow> window \<Rightarrow> world \<Rightarrow> world" where
  "alt_f4 pause win w =
     (if visible win \<and> \<not> not_notepad win then
        emits [Activate win, Sleep 200, Hotkey [''alt'', ''f4''], Sleep 300,
               Press ''n'', Sleep pause] w
      else w)"

definition close_existing_notepad :: "env \<Rightarrow> world \<Rightarrow> world" where
  "close_existing_notepad E w =
     (case get_notepad_windows_main E w of
        (active_windows, w1) \<Rightarrow>
          if active_windows = [] then w1
          else
            (let w2 = emit (Print (''Found '' @ py_str (int (length active_windows))
                                    @ '' existing Notepad window(s). Closing...'')) w1;
                 w3 = close_each_existing E active_windows w2;
                 w4 = sleep 500 w3
             in case get_notepad_windows_main E w4 of
                  (remaining_windows, w5) \<Rightarrow>
                    emit (Print ''Existing Notepad windows closed.'')
                      (fold (alt_f4 300) remaining_windows w5)))"

text \<open>The first loop of \<^verbatim>\<open>close_notepad_fully\<close>.\<close>

definition close_step_fully :: "window \<Rightarrow> world \<Rightarrow> world" where
  "close_step_fully win w =
     (if visible win then
        (if not_notepad win then emit (Print (''Skipping non-Notepad window: '' @ title win)) w
         else emits [CloseWindow win, Sleep 500] w)
      else w)"

text \<open>
  The loop \<^verbatim>\<open>while time.time() < timeout\<close> of \<^verbatim>\<open>close_notepad_fully\<close>: \<open>True\<close> when
  it returned from inside, \<open>False\<close> when the deadline ended it.
\<close>

function closed_poll :: "env \<Rightarrow> nat \<Rightarrow> world \<Rightarrow> bool \<times> world" where
  "closed_poll E timeout w =
     (if clock w < timeout then
        (case get_notepad_windows_main E w of
           (remaining_windows, w1) \<Rightarrow>
             if remaining_windows = [] \<or> \<not> list_ex visible remaining_windows then
               (True, emits [Print ''Notepad successfully closed and verified.'', Sleep 500] w1)
             else closed_poll E timeout (sleep 200 w1))
      else (False, w))"
  by pat_completeness auto
termination
  by (relation "measure (\<lambda>(E, timeout, w). timeout - clock w)")
     (auto simp: get_notepad_windows_main_def emit_def sleep_def)

definition close_notepad_fully :: "env \<Rightarrow> world \<Rightarrow> bool \<times> world" where
  "close_notepad_fully E w =
     (case get_notepad_windows_main E (emit (Print ''Closing Notepad...'') w) of
        (active_windows, w1) \<Rightarrow>
          if active_windows = [] then
            (True, emit (Print ''No Notepad windows found to close.'') w1)
          else
            (let w2 = fold close_step_fully active_windows w1 in
             case closed_poll E (clock w2 + 5000) w2 of
               (True, w3) \<Rightarrow> (True, w3)
             | (False, w3) \<Rightarrow>
                 (case get_notepad_windows_main E w3 of
                    (remaining_windows, w4) \<Rightarrow>
                      if remaining_windows = [] then (True, w4)
                      else
                        (let w5 = emit (Print ''Warning: Notepad still open, trying aggressive close...'') w4;
                             w6 = fold (alt_f4 500) remaining_windows w5
                         in case get_notepad_windows_main E w6 of
                              (final_check, w7) \<Rightarrow>
                                if final_check = [] \<or> \<not> list_ex visible final_check then
                                  (True, emit (Print ''Notepad closed after aggressive attempt.'') w7)
                                else
                                  (False, emit (Print ''Error: Failed to close Notepad completely.'') w7)))))"

text \<open>
  The loop \<^verbatim>\<open>for attempt in range(RETRY_LIMIT)\<close> of \<^verbatim>\<open>launch_and_validate_notepad\<close>;
  the third argument counts the attempts left. An exception of the matcher leaves the
  loop and the function.
\<close>

fun find_attempts ::
  "env \<Rightarrow> (string \<times> ndarray) list \<Rightarrow> nat \<Rightarrow> world \<Rightarrow> error + coords option \<times> world" where
  "find_attempts E templates_list 0 w = Inr (None, w)"
| "find_attempts E templates_list (Suc n) w =
     (case find_icon_with_multiple_templates E templates_list w of
        Inl e \<Rightarrow> Inl e
      | Inr (Some c, w1) \<Rightarrow> Inr (Some c, w1)
      | Inr (None, w1) \<Rightarrow>
          find_attempts E templates_list n
            (emits [Print (''Icon not found (Attempt '' @ py_str (int (RETRY_LIMIT - n)) @ ''/''
                           @ py_str (int RETRY_LIMIT) @ ''). Retrying...''),
                    Sleep (RETRY_DELAY_S * 1000)] w1))"

function validate_poll :: "env \<Rightarrow> nat \<Rightarrow> world \<Rightarrow> bool \<times> world" where
  "validate_poll E timeout w =
     (if clock w < timeout then
        (case get_notepad_windows_main E w of
           (active_windows, w1) \<Rightarrow>
             if list_ex visible active_windows then
               (True, emits [Print ''Notepad successfully launched and validated.'', Sleep 1000] w1)
             else validate_poll E timeout (sleep 200 w1))
      else (False, emit (Print ''Error: Notepad window not detected after launch.'') w))"
  by pat_completeness auto
termination
  by (relation "measure (\<lambda>(E, timeout, w). timeout - clock w)")
     (auto simp: get_notepad_windows_main_def emit_def sleep_def)

declare validate_poll.simps [simp del] closed_poll.simps [simp del]

definition py_tuple :: "coords \<Rightarrow> string" where
  "py_tuple c = ''('' @ py_str (fst c) @ '', '' @ py_str (snd c) @ '')''"

definition launch_and_validate_notepad ::
  "env \<Rightarrow> (string \<times> ndarray) list \<Rightarrow> world \<Rightarrow> error + bool \<times> world" where
  "launch_and_validate_notepad E templates_list w =
     (case find_attempts E templates_list RETRY_LIMIT w of
        Inl e \<Rightarrow> Inl e
      | Inr (None, w1) \<Rightarrow> Inr (False, emit (Print ''Error: Icon not found after 3 attempts.'') w1)
      | Inr (Some icon_coords, w1) \<Rightarrow>
          (let w2 = emits [Print (''Double-clicking Notepad icon at '' @ py_tuple icon_coords),
                           DoubleClick (fst icon_coords) (snd icon_coords)] w1
           in Inr (validate_poll E (clock w2 + 5000) w2)))"

text \<open>
  In the \<^verbatim>\<open>try\<close> block of \<^verbatim>\<open>process_single_post\<close> nothing of the model raises (the
  post has its three fields, the calls to the desktop succeed), so its \<^verbatim>\<open>except\<close>
  branch has no counterpart here. The calls before the block are outside it: an exception of the
  matcher leaves \<^verbatim>\<open>process_single_post\<close>.
\<close>

definition process_single_post ::
  "env \<Rightarrow> post \<Rightarrow> (string \<times> ndarray) list \<Rightarrow> world \<Rightarrow> error + world" where
  "process_single_post E p templates_list w =
     (let w1 = emit (Print (CHR 0x0A # ''Processing Post ID: '' @ py_str (post_id p))) w;
          w2 = close_existing_notepad E w1
      in case launch_and_validate_notepad E templates_list w2 of
           Inl e \<Rightarrow> Inl e
         | Inr (False, w3) \<Rightarrow>
             Inr (emit (Print (''Skipping post '' @ py_str (post_id p) @ '' due to launch failure.'')) w3)
         | Inr (True, w3) \<Rightarrow>
             (case get_notepad_windows_main E w3 of
                (active_windows, w4) \<Rightarrow>
                  (let w5 = (case active_windows of
                               [] \<Rightarrow> w4
                             | win # _ \<Rightarrow>
                                 emits [Activate win, Sleep 500,
                                        Click (win_left win + win_width win div 2)
                                              (win_top win + win_height win div 2),
                                        Sleep 300] w4);
                       w6 = emits [Hotkey [''ctrl'', ''n''], Sleep 500,
                                   Hotkey [''ctrl'', ''a''], Sleep 200,
                                   Press ''delete'', Sleep 200] w5;
                       content = post_content p;
                       w7 = emits [ClipboardCopy content, Sleep 100,
                                   Hotkey [''ctrl'', ''v''], Sleep 300,
                                   Hotkey [''ctrl'', ''s''], Sleep 1000] w6;
                       filename = post_filename p;
                       filepath = path_join E (PROJECT_PATH E) filename;
                       w8 = emits [TypeWrite filepath, Press ''enter'', Sleep 500] w7;
                       confirm_window = windows_with_title E w8 ''Confirm Save As'';
                       w9 = emit (GetWindowsWithTitle ''Confirm Save As'') w8;
                       w10 = (if confirm_window \<noteq> [] then
                                emits [Print ''File exists. Overwriting.'', Press ''y'', Sleep 500] w9
                              else w9)
                   in case close_notepad_fully E w10 of
                        (is_closed, w11) \<Rightarrow>
                          (let w12 = (if \<not> is_closed then
                                        emit (Print (''Warning: Notepad may not have closed completely for post ''
                                                      @ py_str (post_id p))) w11
                                      else w11)
                           in Inr (emit (Print (''Successfully processed Post ID: ''
                                                 @ py_str (post_id p))) w12)))))"

text \<open>The loop \<^verbatim>\<open>for post in posts[:10]\<close> of \<^verbatim>\<open>main\<close>, over the slice.\<close>

fun process_posts :: "env \<Rightarrow> (string \<times> ndarray) list \<Rightarrow> post list \<Rightarrow> world \<Rightarrow> error + world" where
  "process_posts E all_templates [] w = Inr w"
| "process_posts E all_templates (p # ps) w =
     (case process_single_post E p all_templates w of
        Inl e \<Rightarrow> Inl e
      | Inr w1 \<Rightarrow> process_posts E all_templates ps w1)"

text \<open>
  \<^verbatim>\<open>main\<close> after its three calls to the outside: \<^verbatim>\<open>setup_environment()\<close>,
  \<^verbatim>\<open>load_templates(TEMPLATE_DIR)\<close>, whose result is \<open>all_templates\<close>, and
  \<^verbatim>\<open>fetch_posts()\<close>, whose result is \<open>posts\<close> (\<open>None\<close> when the API failed).
\<close>

definition main :: "env \<Rightarrow> (string \<times> ndarray) list \<Rightarrow> post list option \<Rightarrow> world \<Rightarrow> error + world" where
  "main E all_templates posts w =
     (if all_templates = [] then
        Inr (emit (Print ''Exiting, no templates found. Check the 'assets/templates' folder.'') w)
      else
        (case posts of
           None \<Rightarrow> Inr (emit (Print ''Exiting due to API failure.'') w)
         | Some [] \<Rightarrow> Inr (emit (Print ''Exiting due to API failure.'') w)
         | Some ps \<Rightarrow>
             process_posts E all_templates (take 10 ps)
               (emits [Print ''Starting automation. Please do not move the mouse.'', Sleep 3000] w)))"

section \<open>Vocabulary of the specification\<close>

text \<open>
  The templates that the matcher evaluates on a capture are those it does not skip; the
  confidence of a template is the maximum of its match surface; the best confidence is
  the largest one, or 0 when nothing was evaluated; the centre of a template's match is
  the match location moved by half the template's width and height.
\<close>

definition evaluated :: "screen_capture \<Rightarrow> (string \<times> ndarray) list \<Rightarrow> (string \<times> ndarray) list" where
  "evaluated S ts = filter (\<lambda>nt. \<not> too_big S (snd nt)) ts"

definition confidence :: "screen_capture \<Rightarrow> string \<times> ndarray \<Rightarrow> real" where
  "confidence S nt = fst (match_template S (snd nt))"

definition best_confidence :: "screen_capture \<Rightarrow> (string \<times> ndarray) list \<Rightarrow> real" where
  "best_confidence S ts = fold max (map (confidence S) (evaluated S ts)) 0"

definition centre_of :: "screen_capture \<Rightarrow> string \<times> ndarray \<Rightarrow> coords" where
  "centre_of S nt =
     (fst (snd (match_template S (snd nt))) + int (shape (snd nt) ! 1 div 2),
      snd (snd (match_template S (snd nt))) + int (shape (snd nt) ! 0 div 2))"

text \<open>The record that the loop stores when a template becomes the best so far.\<close>

definition candidate :: "screen_capture \<Rightarrow> string \<times> ndarray \<Rightarrow> best_match" where
  "candidate S nt =
     \<lparr>best_match_score = confidence S nt,
      best_match_loc = Some (snd (match_template S (snd nt))),
      best_match_dims = (shape (snd nt) ! 1, shape (snd nt) ! 0),
      best_template_name = fst nt\<rparr>"

text \<open>
  Templates that OpenCV accepts: non-empty 8-bit images of three or four channels, as
  colour images with or without transparency are read.
\<close>

definition colour_8bit :: "(string \<times> ndarray) list \<Rightarrow> bool" where
  "colour_8bit ts \<longleftrightarrow>
     list_all (\<lambda>nt. \<not> cvtColor_raises (snd nt) \<and> \<not> matchTemplate_raises (snd nt)) ts"

text \<open>The impostor substrings that \<^verbatim>\<open>main.py\<close> looks for in a lowered title.\<close>

definition is_impostor :: "string \<Rightarrow> bool" where
  "is_impostor t \<longleftrightarrow> py_in ''cursor'' (py_lower t) \<or> py_in ''code'' (py_lower t) \<or> py_in ''editor'' (py_lower t)"

text \<open>
  The calls of a run fall in two classes. Housekeeping calls look at the desktop or keep
  it tidy: sleeps, window queries, activating, clicking and closing windows, the screen
  capture, the answer "n" to a save prompt, Alt+F4, and the log lines. All other calls are
  the \<open>script\<close> of the run: what it types, copies to the clipboard and asks the editor
  or the bot to do, and the line that announces a post (the only log line that starts
  with a newline). \<open>quiet w w'\<close>: the run from \<open>w\<close> to \<open>w'\<close> made housekeeping calls
  only; \<open>runs w w' sc\<close>: its script was \<open>sc\<close>.
\<close>

fun housekeeping :: "event \<Rightarrow> bool" where
  "housekeeping (ClipboardCopy s) = False"
| "housekeeping (TypeWrite s) = False"
| "housekeeping (BotFind l m) = False"
| "housekeeping (BotGetCoords l m) = False"
| "housekeeping (Press k) = (k = ''n'')"
| "housekeeping (Hotkey ks) = (ks = [''alt'', ''f4''])"
| "housekeeping (Print s) = (take 1 s \<noteq> [CHR 0x0A])"
| "housekeeping e = True"

definition script :: "event list \<Rightarrow> event list" where
  "script es = filter (\<lambda>e. \<not> housekeeping e) es"

definition quiet :: "world \<Rightarrow> world \<Rightarrow> bool" where
  "quiet w w' \<longleftrightarrow> (\<exists>es. w' = emits es w \<and> list_all housekeeping es)"

definition runs :: "world \<Rightarrow> world \<Rightarrow> event list \<Rightarrow> bool" where
  "runs w w' sc \<longleftrightarrow> (\<exists>es. w' = emits es w \<and> script es = sc)"

text \<open>
  The log line with which \<^verbatim>\<open>process_single_post\<close> starts on a post, and the script of
  \<^verbatim>\<open>main.py\<close> for writing and saving one post.
\<close>

definition announcement :: "post \<Rightarrow> event" where
  "announcement p = Print (CHR 0x0A # ''Processing Post ID: '' @ py_str (post_id p))"

definition is_announcement :: "event \<Rightarrow> bool" where
  "is_announcement e = (case e of Print s \<Rightarrow> take 1 s = [CHR 0x0A] | _ \<Rightarrow> False)"

text \<open>The answer to the overwrite prompt, given when the prompt is listed in world \<open>u\<close>.\<close>

definition overwrite_keys :: "env \<Rightarrow> world \<Rightarrow> event list" where
  "overwrite_keys E u = (if windows_with_title E u ''Confirm Save As'' = [] then [] else [Press ''y''])"

definition main_keys :: "env \<Rightarrow> post \<Rightarrow> event list" where
  "main_keys E p =
     [Hotkey [''ctrl'', ''n''], Hotkey [''ctrl'', ''a''], Press ''delete'',
      ClipboardCopy (post_content p), Hotkey [''ctrl'', ''v''], Hotkey [''ctrl'', ''s''],
      TypeWrite (path_join E (PROJECT_PATH E) (post_filename p)), Press ''enter'']"

definition announcements :: "event list \<Rightarrow> event list" where
  "announcements es = filter is_announcement es"

text \<open>
  The searches of a run are its calls of \<^verbatim>\<open>bot.find\<close>. \<open>launched_with E ls w' c\<close>: the
  world \<open>w'\<close> is the outcome of a successful verification of the coordinates \<open>c\<close> that a
  call of \<open>find_icon\<close> returned. \<open>window_seen E c w'\<close>: the world \<open>w'\<close> is the one
  reached from a poll that listed a visible editor window, by storing \<open>c\<close> in the cache
  and waiting once. \<open>coords_given E\<close>: whenever the bot has found a label and reports a
  pair of coordinates for it right after, both are numbers. \<open>fruitless E ls\<close>: the calls
  of a \<open>find_icon\<close> that looks for every label at both thresholds and finds none.
\<close>

definition is_bot_find :: "event \<Rightarrow> bool" where
  "is_bot_find e = (case e of BotFind l m \<Rightarrow> True | _ \<Rightarrow> False)"

definition searches :: "event list \<Rightarrow> nat" where
  "searches es = length (filter is_bot_find es)"





text \<open>
  The screen captures and the double clicks of a run of \<^verbatim>\<open>main.py\<close>, and
  \<open>window_seen_main E v\<close>: the world \<open>v\<close> is the one reached from a poll that listed a
  visible editor window, by the log line and the sleep of one second.
\<close>

definition grabs :: "event list \<Rightarrow> nat" where
  "grabs es = length (filter (\<lambda>e. e = ScreenGrab) es)"

definition is_double_click :: "event \<Rightarrow> bool" where
  "is_double_click e = (case e of DoubleClick x y \<Rightarrow> True | _ \<Rightarrow> False)"

definition double_clicks :: "event list \<Rightarrow> event list" where
  "double_clicks es = filter is_double_click es"


text \<open>The polls of a deadline \<open>d\<close> ahead when each poll is followed by a sleep of \<open>sp\<close>.\<close>

definition polls :: "nat \<Rightarrow> nat \<Rightarrow> nat" where
  "polls sp d = (d + sp - 1) div sp"






section \<open>Concrete desktops\<close>

text \<open>
  A desktop for the examples: \<open>on_screen l\<close> gives, for a template label that matches
  somewhere, its confidence and the coordinates the bot reports; the bot finds a label at
  a matching threshold when the label's confidence reaches it, and reports the pair of
  two \<^verbatim>\<open>None\<close> for the coordinates of a label it does not find. \<open>S\<close> is the capture that
  \<^verbatim>\<open>main.py\<close> grabs and \<open>wins\<close> lists the windows.
\<close>

definition desktop ::
  "(string \<Rightarrow> (real \<times> real \<times> real) option) \<Rightarrow> screen_capture \<Rightarrow>
   (world \<Rightarrow> string \<Rightarrow> window list) \<Rightarrow> env" where
  "desktop on_screen S wins =
     \<lparr>bot_find = (\<lambda>w l m. case on_screen l of Some (s, p) \<Rightarrow> m \<le> s | None \<Rightarrow> False),
      bot_coords = (\<lambda>w l m. case on_screen l of
                                Some (s, x, y) \<Rightarrow>
                                  if m \<le> s then Some (Some x, Some y) else Some (None, None)
                              | None \<Rightarrow> Some (None, None)),
      windows_with_title = wins,
      grab = (\<lambda>w. S),
      path_join = (\<lambda>p f. p @ ''/'' @ f),
      PROJECT_PATH = ''Desktop/tjm-project'',
      MATCHING_THRESHOLD = 0.8,
      SPACING = 200\<rparr>"

definition world0 :: world where
  "world0 = \<lparr>icon_cache = None, clock = 0, trace = []\<rparr>"

definition no_windows :: "world \<Rightarrow> string \<Rightarrow> window list" where
  "no_windows w t = []"

definition no_icons :: "string \<Rightarrow> (real \<times> real \<times> real) option" where
  "no_icons l = None"

text \<open>
  The example of the specification: template A scores 0.85 and template B scores 0.92,
  both above the threshold 0.8. A third template is an image of 16-bit depth.
\<close>

definition icons_AB :: "string \<Rightarrow> (real \<times> real \<times> real) option" where
  "icons_AB l = (if l = ''A'' then Some (0.85, 10, 20)
                 else if l = ''B'' then Some (0.92, 110, 110) else None)"

definition template_A :: ndarray where
  "template_A = \<lparr>shape = [20, 20, 3], dtype = UInt8, pixels = [1]\<rparr>"

definition template_B :: ndarray where
  "template_B = \<lparr>shape = [20, 20, 4], dtype = UInt8, pixels = [2]\<rparr>"

definition template_deep :: ndarray where
  "template_deep = \<lparr>shape = [20, 20, 3], dtype = UInt16, pixels = [3]\<rparr>"

definition capture_AB :: screen_capture where
  "capture_AB = \<lparr>scr_rows = 1080, scr_cols = 1920,
     match_template = (\<lambda>t. if pixels t = [1] then (0.85, (0, 10))
                            else if pixels t = [2] then (0.92, (100, 100)) else (0, (0, 0)))\<rparr>"

definition desktop_AB :: env where
  "desktop_AB = desktop icons_AB capture_AB no_windows"

text \<open>
  Further desktops: a label that only reaches a confidence between the lowered and the
  primary threshold, a capture on which nothing matches, a grayscale template larger than
  that capture, and two windows whose titles contain the word Notepad.
\<close>

definition icons_weak :: "string \<Rightarrow> (real \<times> real \<times> real) option" where
  "icons_weak l = (if l = ''A'' then Some (0.75, 10, 20) else None)"

definition blank_capture :: screen_capture where
  "blank_capture = \<lparr>scr_rows = 1080, scr_cols = 1920, match_template = (\<lambda>t. (0, (0, 0)))\<rparr>"

definition big_gray :: ndarray where
  "big_gray = \<lparr>shape = [2000, 3000], dtype = UInt8, pixels = []\<rparr>"

definition icons_faint :: "string \<Rightarrow> (real \<times> real \<times> real) option" where
  "icons_faint l = (if l = ''B'' then Some (0.72, 300, 40) else None)"

definition titled :: "nat \<Rightarrow> string \<Rightarrow> window" where
  "titled h t = \<lparr>hwnd = h, title = t, visible = True, win_left = 0, win_top = 0,
     win_width = 800, win_height = 600\<rparr>"

definition two_windows :: "world \<Rightarrow> string \<Rightarrow> window list" where
  "two_windows w t = (if t = ''Notepad'' then [titled 1 ''Notepad++'', titled 2 ''Cursor - Notepad''] else [])"

definition eleven_posts :: "post list" where
  "eleven_posts = map (\<lambda>i. \<lparr>post_id = int i, post_title = ''T'', post_body = ''B''\<rparr>) [1..<12]"








definition flicker :: env where
  "flicker = (desktop no_icons blank_capture no_windows)\<lparr>bot_find := (\<lambda>w l m. True)\<rparr>"


section \<open>Lemmas on the matcher of \<^verbatim>\<open>main.py\<close>\<close>

lemma py_int_of_int: "py_int (of_int k) = k"
  by (simp add: py_int_def)

lemma py_int_numeral: "py_int (numeral k) = numeral k"
  using py_int_of_int[of "numeral k"] by simp

lemma cvtColor_template_bgr:
  "\<not> cvtColor_raises t \<Longrightarrow> \<not> cvtColor_raises (template_bgr t) \<and> \<not> length (shape t) < 3"
  by (auto simp: cvtColor_raises_def template_bgr_def)

lemma match_loop_total:
  "colour_8bit ts \<Longrightarrow> \<exists>b' w'. match_loop S ts b w = Inr (b', w')"
proof (induction ts arbitrary: b w)
  case Nil
  then show ?case by simp
next
  case (Cons a ts)
  obtain n t where a: "a = (n, t)" by (cases a)
  from Cons.prems have ws: "colour_8bit ts"
    and ok: "\<not> cvtColor_raises t" "\<not> matchTemplate_raises t"
    by (auto simp: colour_8bit_def a)
  show ?case
    using Cons.IH[OF ws] cvtColor_template_bgr[OF ok(1)] ok(2)
    by (simp add: a Let_def split: prod.splits)
qed

lemma fold_max_ge: "(x::real) \<le> fold max xs x"
  by (induction xs arbitrary: x) (auto intro: order_trans[OF max.cobounded2])

lemma fold_max_upper: "x \<in> set xs \<Longrightarrow> (x::real) \<le> fold max xs y"
proof (induction xs arbitrary: y)
  case Nil
  then show ?case by simp
next
  case (Cons a xs)
  then show ?case
    by (auto intro: order_trans[OF _ fold_max_ge])
qed

lemma match_loop_score:
  "match_loop S ts b w = Inr (b', w') \<Longrightarrow>
   best_match_score b' = fold max (map (confidence S) (evaluated S ts)) (best_match_score b)"
proof (induction ts arbitrary: b w)
  case Nil
  then show ?case by (simp add: evaluated_def)
next
  case (Cons a ts)
  obtain n t where a: "a = (n, t)" by (cases a)
  show ?case
    using Cons.prems Cons.IH
    by (auto simp: a Let_def evaluated_def confidence_def max_def split: prod.splits if_splits)
qed

lemma match_loop_origin:
  "match_loop S ts b w = Inr (b', w') \<Longrightarrow>
   b' = b \<or> (\<exists>nt \<in> set (evaluated S ts). b' = candidate S nt)"
proof (induction ts arbitrary: b w)
  case Nil
  then show ?case by simp
next
  case (Cons a ts)
  obtain n t where a: "a = (n, t)" by (cases a)
  show ?case
    using Cons.prems Cons.IH
    by (fastforce simp: a Let_def evaluated_def candidate_def confidence_def split: prod.splits if_splits)
qed

lemma find_main_accepts:
  assumes ws: "colour_8bit ts"
  shows "\<exists>r w'. find_icon_with_multiple_templates E ts w = Inr (r, w') \<and>
           (r \<noteq> None \<longleftrightarrow> MATCH_THRESHOLD \<le> best_confidence (grab E w) ts) \<and>
           (\<forall>c. r = Some c \<longrightarrow>
              (\<exists>nt \<in> set (evaluated (grab E w) ts).
                  confidence (grab E w) nt = best_confidence (grab E w) ts \<and>
                  c = centre_of (grab E w) nt))"
proof -
  let ?S = "grab E w"
  obtain b' w' where ml: "match_loop ?S ts best_init (emit ScreenGrab w) = Inr (b', w')"
    using match_loop_total[OF ws] by blast
  have sc: "best_match_score b' = best_confidence ?S ts"
    using match_loop_score[OF ml] by (simp add: best_confidence_def best_init_def)
  have orig: "b' = best_init \<or> (\<exists>nt \<in> set (evaluated ?S ts). b' = candidate ?S nt)"
    by (rule match_loop_origin[OF ml])
  show ?thesis
  proof (cases "MATCH_THRESHOLD \<le> best_confidence ?S ts")
    case False
    then have "find_icon_with_multiple_templates E ts w = Inr (None, w')"
      using ml sc by (simp add: find_icon_with_multiple_templates_def)
    with False show ?thesis by simp
  next
    case True
    then have "b' \<noteq> best_init"
      using sc by (auto simp: best_init_def MATCH_THRESHOLD_def)
    with orig obtain nt where nt: "nt \<in> set (evaluated ?S ts)" and b': "b' = candidate ?S nt"
      by blast
    have "find_icon_with_multiple_templates E ts w =
            Inr (Some (centre_of ?S nt),
                 emit (PrintFound (best_template_name b') (best_match_score b')) w')"
      using ml sc True
      by (simp add: find_icon_with_multiple_templates_def b' candidate_def centre_of_def
            split: prod.splits)
    moreover have "confidence ?S nt = best_confidence ?S ts"
      using sc by (simp add: b' candidate_def)
    ultimately show ?thesis using True nt by auto
  qed
qed

lemma find_main_rule:
  assumes "find_icon_with_multiple_templates E ts w = Inr (r, w')"
  shows "(r \<noteq> None \<longleftrightarrow> MATCH_THRESHOLD \<le> best_confidence (grab E w) ts) \<and>
         (\<forall>c. r = Some c \<longrightarrow>
            (\<exists>nt \<in> set (evaluated (grab E w) ts).
                confidence (grab E w) nt = best_confidence (grab E w) ts \<and>
                c = centre_of (grab E w) nt))"
proof -
  let ?S = "grab E w"
  from assms obtain b' w1 where
    ml: "match_loop ?S ts best_init (emit ScreenGrab w) = Inr (b', w1)"
    by (auto simp: find_icon_with_multiple_templates_def Let_def split: sum.splits)
  have sc: "best_match_score b' = best_confidence ?S ts"
    using match_loop_score[OF ml] by (simp add: best_confidence_def best_init_def)
  have orig: "b' = best_init \<or> (\<exists>nt \<in> set (evaluated ?S ts). b' = candidate ?S nt)"
    by (rule match_loop_origin[OF ml])
  show ?thesis
  proof (cases "MATCH_THRESHOLD \<le> best_confidence ?S ts")
    case False
    then have "find_icon_with_multiple_templates E ts w = Inr (None, w1)"
      using ml sc by (simp add: find_icon_with_multiple_templates_def)
    with assms False show ?thesis by simp
  next
    case True
    then have "b' \<noteq> best_init"
      using sc by (auto simp: best_init_def MATCH_THRESHOLD_def)
    with orig obtain nt where nt: "nt \<in> set (evaluated ?S ts)" and b': "b' = candidate ?S nt"
      by blast
    have "find_icon_with_multiple_templates E ts w =
            Inr (Some (centre_of ?S nt),
                 emit (PrintFound (best_template_name b') (best_match_score b')) w1)"
      using ml sc True
      by (simp add: find_icon_with_multiple_templates_def b' candidate_def centre_of_def
            split: prod.splits)
    with assms have r: "r = Some (centre_of ?S nt)" by simp
    moreover have "confidence ?S nt = best_confidence ?S ts"
      using sc by (simp add: b' candidate_def)
    ultimately show ?thesis using True nt by auto
  qed
qed

lemma find_main_selects_max:
  assumes "find_icon_with_multiple_templates E ts w = Inr (Some c, w')"
  shows "\<exists>nt \<in> set (evaluated (grab E w) ts).
           c = centre_of (grab E w) nt \<and>
           MATCH_THRESHOLD \<le> confidence (grab E w) nt \<and>
           (\<forall>nt' \<in> set (evaluated (grab E w) ts).
              confidence (grab E w) nt' \<le> confidence (grab E w) nt)"
proof -
  let ?S = "grab E w"
  from assms obtain b' w1 where
    ml: "match_loop ?S ts best_init (emit ScreenGrab w) = Inr (b', w1)"
    by (auto simp: find_icon_with_multiple_templates_def Let_def split: sum.splits)
  have sc: "best_match_score b' = best_confidence ?S ts"
    using match_loop_score[OF ml] by (simp add: best_confidence_def best_init_def)
  have orig: "b' = best_init \<or> (\<exists>nt \<in> set (evaluated ?S ts). b' = candidate ?S nt)"
    by (rule match_loop_origin[OF ml])
  from assms ml have acc: "MATCH_THRESHOLD \<le> best_match_score b'"
    by (auto simp: find_icon_with_multiple_templates_def Let_def split: if_splits)
  then have "b' \<noteq> best_init" by (auto simp: best_init_def MATCH_THRESHOLD_def)
  with orig obtain nt where nt: "nt \<in> set (evaluated ?S ts)" and b': "b' = candidate ?S nt"
    by blast
  have c: "c = centre_of ?S nt"
    using assms ml acc
    by (auto simp: find_icon_with_multiple_templates_def b' candidate_def centre_of_def
          split: prod.splits if_splits)
  have mx: "\<forall>nt' \<in> set (evaluated ?S ts). confidence ?S nt' \<le> confidence ?S nt"
  proof
    fix nt' assume "nt' \<in> set (evaluated ?S ts)"
    then have "confidence ?S nt' \<le> best_confidence ?S ts"
      unfolding best_confidence_def by (intro fold_max_upper) auto
    then show "confidence ?S nt' \<le> confidence ?S nt"
      using sc by (simp add: b' candidate_def)
  qed
  from nt c acc mx show ?thesis by (auto simp: b' candidate_def)
qed

lemma find_icon_first_found:
  "bot_find E v l (MATCHING_THRESHOLD E) \<Longrightarrow>
   bot_coords E (emit (BotFind l (MATCHING_THRESHOLD E)) v) l (MATCHING_THRESHOLD E)
     = Some (Some cx, Some cy) \<Longrightarrow>
   \<exists>v'. find_icon E (l # ls) False click v = Inr (Some (py_int cx, py_int cy), v')"
  by (simp add: find_icon_def Let_def int_of_def)

section \<open>Lemmas on traces\<close>

lemma emits_Nil [simp]: "emits [] w = w"
  by (simp add: emits_def)

lemma emits_Cons [simp]: "emits (e # es) w = emits es (emit e w)"
  by (simp add: emits_def)

lemma emits_append: "emits (es @ fs) w = emits fs (emits es w)"
  by (simp add: emits_def)

lemma script_append: "script (es @ fs) = script es @ script fs"
  by (simp add: script_def)

lemma script_housekeeping: "list_all housekeeping es \<Longrightarrow> script es = []"
  by (induction es) (auto simp: script_def)

lemma emit_fields [simp]:
  "trace (emit e w) = trace w @ [e]"
  "icon_cache (emit e w) = icon_cache w"
  "clock (emit e w) = clock w + (case e of Sleep d \<Rightarrow> d | _ \<Rightarrow> 0)"
  by (simp_all add: emit_def)


lemma quiet_refl: "quiet w w"
  unfolding quiet_def by (rule exI[of _ "[]"]) simp

lemma quiet_trans: "quiet w w1 \<Longrightarrow> quiet w1 w2 \<Longrightarrow> quiet w w2"
  unfolding quiet_def
  by (metis emits_append list_all_append)

lemma quiet_emits: "list_all housekeeping es \<Longrightarrow> quiet w (emits es w)"
  unfolding quiet_def by blast

lemma quiet_emit: "housekeeping e \<Longrightarrow> quiet w (emit e w)"
  using quiet_emits[of "[e]" w] by simp

lemma quiet_then_emit: "quiet w w1 \<Longrightarrow> housekeeping e \<Longrightarrow> quiet w (emit e w1)"
  by (blast intro: quiet_trans quiet_emit)

lemma quiet_then_sleep: "quiet w w1 \<Longrightarrow> quiet w (sleep d w1)"
  by (simp add: sleep_def quiet_then_emit)


lemmas quiet_intros = quiet_refl quiet_then_emit quiet_then_sleep

lemma quiet_close_each_existing:
  "quiet w w1 \<Longrightarrow> quiet w (close_each_existing E ws w1)"
proof (induction ws arbitrary: w1)
  case Nil
  then show ?case by simp
next
  case (Cons win rest)
  show ?case
    using Cons.prems
    by (auto simp: Let_def get_notepad_windows_main_def intro!: Cons.IH quiet_intros)
qed

lemma quiet_alt_f4: "quiet w w1 \<Longrightarrow> quiet w (alt_f4 p win w1)"
  unfolding alt_f4_def by (auto intro!: quiet_intros)

lemma quiet_fold_alt_f4: "quiet w w1 \<Longrightarrow> quiet w (fold (alt_f4 p) ws w1)"
  by (induction ws arbitrary: w1) (auto intro!: quiet_alt_f4)

lemma quiet_close_existing_notepad:
  "quiet w w1 \<Longrightarrow> quiet w (close_existing_notepad E w1)"
  unfolding close_existing_notepad_def get_notepad_windows_main_def
  by (auto simp: Let_def intro!: quiet_intros quiet_fold_alt_f4 quiet_close_each_existing)

lemma quiet_close_step_fully: "quiet w w1 \<Longrightarrow> quiet w (close_step_fully win w1)"
  unfolding close_step_fully_def by (auto intro!: quiet_intros)

lemma quiet_fold_close_step_fully: "quiet w w1 \<Longrightarrow> quiet w (fold close_step_fully ws w1)"
  by (induction ws arbitrary: w1) (auto intro!: quiet_close_step_fully)

lemma quiet_closed_poll: "quiet w w1 \<Longrightarrow> quiet w (snd (closed_poll E timeout w1))"
proof (induction E timeout w1 rule: closed_poll.induct)
  case (1 E timeout w1)
  show ?case
  proof (cases "clock w1 < timeout")
    case False
    then show ?thesis using "1.prems" by (subst closed_poll.simps) simp
  next
    case True
    obtain rw w2 where g: "get_notepad_windows_main E w1 = (rw, w2)"
      by (cases "get_notepad_windows_main E w1")
    then have w2: "w2 = emit (GetWindowsWithTitle ''Notepad'') w1"
      by (simp add: get_notepad_windows_main_def)
    have q2: "quiet w w2" unfolding w2 using "1.prems" by (auto intro!: quiet_intros)
    show ?thesis
    proof (cases "rw = [] \<or> \<not> list_ex visible rw")
      case fin: True
      have "snd (closed_poll E timeout w1) =
              emits [Print ''Notepad successfully closed and verified.'', Sleep 500] w2"
        using True g fin by (subst closed_poll.simps) auto
      then show ?thesis using q2 by (auto intro!: quiet_intros)
    next
      case again: False
      have "snd (closed_poll E timeout w1) = snd (closed_poll E timeout (sleep 200 w2))"
        using True g again by (subst closed_poll.simps) auto
      moreover have "quiet w (snd (closed_poll E timeout (sleep 200 w2)))"
        using q2 by (intro "1.IH"[OF True g[symmetric] again]) (auto intro!: quiet_intros)
      ultimately show ?thesis by simp
    qed
  qed
qed

lemma quiet_close_notepad_fully:
  "quiet w w1 \<Longrightarrow> quiet w (snd (close_notepad_fully E w1))"
proof -
  assume q: "quiet w w1"
  let ?w0 = "emit (Print ''Closing Notepad...'') w1"
  obtain aw wa where g: "get_notepad_windows_main E ?w0 = (aw, wa)"
    by (cases "get_notepad_windows_main E ?w0")
  then have wa: "wa = emit (GetWindowsWithTitle ''Notepad'') ?w0"
    by (simp add: get_notepad_windows_main_def)
  have qa: "quiet w wa" unfolding wa using q by (auto intro!: quiet_intros)
  show ?thesis
  proof (cases "aw = []")
    case True
    then show ?thesis using g qa by (auto simp: close_notepad_fully_def intro!: quiet_intros)
  next
    case False
    let ?w2 = "fold close_step_fully aw wa"
    have q2: "quiet w ?w2" using qa by (rule quiet_fold_close_step_fully)
    obtain b w3 where p: "closed_poll E (clock ?w2 + 5000) ?w2 = (b, w3)"
      by (cases "closed_poll E (clock ?w2 + 5000) ?w2")
    have q3: "quiet w w3" using quiet_closed_poll[OF q2, of E "clock ?w2 + 5000"] p by simp
    show ?thesis
    proof (cases b)
      case True
      then show ?thesis using g False p q3 by (simp add: close_notepad_fully_def)
    next
      case nb: False
      obtain rw w4 where g4: "get_notepad_windows_main E w3 = (rw, w4)"
        by (cases "get_notepad_windows_main E w3")
      then have w4: "w4 = emit (GetWindowsWithTitle ''Notepad'') w3"
        by (simp add: get_notepad_windows_main_def)
      have q4: "quiet w w4" unfolding w4 using q3 by (auto intro!: quiet_intros)
      show ?thesis
      proof (cases "rw = []")
        case True
        then show ?thesis using g False p nb g4 q4 by (simp add: close_notepad_fully_def)
      next
        case rem: False
        let ?w6 = "fold (alt_f4 500) rw
                     (emit (Print ''Warning: Notepad still open, trying aggressive close...'') w4)"
        have q6: "quiet w ?w6" using q4 by (auto intro!: quiet_fold_alt_f4 quiet_intros)
        obtain fc w7 where g7: "get_notepad_windows_main E ?w6 = (fc, w7)"
          by (cases "get_notepad_windows_main E ?w6")
        then have w7: "w7 = emit (GetWindowsWithTitle ''Notepad'') ?w6"
          by (simp add: get_notepad_windows_main_def)
        have q7: "quiet w w7" unfolding w7 using q6 by (auto intro!: quiet_intros)
        have "snd (close_notepad_fully E w1) = emit (Print ''Notepad closed after aggressive attempt.'') w7
              \<or> snd (close_notepad_fully E w1) = emit (Print ''Error: Failed to close Notepad completely.'') w7"
          using g False p nb g4 rem g7 by (simp add: close_notepad_fully_def Let_def)
        then show ?thesis using q7 by (auto intro!: quiet_intros)
      qed
    qed
  qed
qed

lemma find_labels_none:
  "(\<forall>u l m. \<not> bot_find E u l m) \<Longrightarrow>
   find_labels E click thr ls w = Inr (None, emits (map (\<lambda>l. BotFind l thr) ls) w)"
  by (induction ls arbitrary: w) (simp_all add: Let_def)

section \<open>Lemmas on the workflow of \<^verbatim>\<open>main.py\<close>\<close>

lemma runs_refl: "runs w w []"
  unfolding runs_def by (rule exI[of _ "[]"]) (simp add: script_def)

lemma runs_quiet: "runs w w1 sc \<Longrightarrow> quiet w1 w2 \<Longrightarrow> runs w w2 sc"
  unfolding runs_def quiet_def
  by (metis append_Nil2 emits_append script_append script_housekeeping)

lemma runs_emits: "runs w w1 sc \<Longrightarrow> runs w (emits es w1) (sc @ script es)"
  unfolding runs_def by (metis emits_append script_append)

lemma quiet_match_loop:
  "match_loop S ts b w1 = Inr (b', w') \<Longrightarrow> quiet w w1 \<Longrightarrow> quiet w w'"
proof (induction ts arbitrary: b w1)
  case Nil
  then show ?case by simp
next
  case (Cons a ts)
  obtain n t where a: "a = (n, t)" by (cases a)
  have sk: "housekeeping (Print (skip_message n))" by (simp add: skip_message_def)
  from Cons.prems(1) have len: "\<not> length (shape t) < 3" "\<not> cvtColor_raises (template_bgr t)"
    by (auto simp: a split: if_splits)
  show ?case
  proof (cases "too_big S t")
    case True
    with Cons.prems(1) len
    have "match_loop S ts b (emit (Print (skip_message n)) w1) = Inr (b', w')"
      by (simp add: a)
    moreover have "quiet w (emit (Print (skip_message n)) w1)"
      using Cons.prems(2) sk by (rule quiet_then_emit)
    ultimately show ?thesis by (rule Cons.IH)
  next
    case False
    with Cons.prems(1) len obtain b1 where "match_loop S ts b1 w1 = Inr (b', w')"
      by (auto simp: a Let_def split: prod.splits if_splits)
    then show ?thesis using Cons.prems(2) by (rule Cons.IH)
  qed
qed

lemma quiet_find_main:
  assumes "find_icon_with_multiple_templates E ts w1 = Inr (r, w')" and q: "quiet w w1"
  shows "quiet w w'"
proof -
  from assms(1) obtain b' w2 where
    ml: "match_loop (grab E w1) ts best_init (emit ScreenGrab w1) = Inr (b', w2)"
    by (auto simp: find_icon_with_multiple_templates_def Let_def split: sum.splits)
  have "quiet w (emit ScreenGrab w1)"
    using q by (rule quiet_then_emit) simp
  with ml have q2: "quiet w w2"
    by (rule quiet_match_loop)
  from assms(1) ml have "w' = w2 \<or> w' = emit (PrintFound (best_template_name b') (best_match_score b')) w2"
    by (auto simp: find_icon_with_multiple_templates_def Let_def split: if_splits option.splits prod.splits)
  then show ?thesis using q2 by (auto intro!: quiet_intros)
qed

lemma quiet_find_attempts:
  "find_attempts E ts n w1 = Inr (r, w') \<Longrightarrow> quiet w w1 \<Longrightarrow> quiet w w'"
proof (induction n arbitrary: w1)
  case 0
  then show ?case by simp
next
  case (Suc n)
  from Suc.prems(1) obtain r1 w2 where f: "find_icon_with_multiple_templates E ts w1 = Inr (r1, w2)"
    by (auto split: sum.splits)
  have q2: "quiet w w2" using f Suc.prems(2) by (rule quiet_find_main)
  show ?case
  proof (cases r1)
    case (Some c)
    with Suc.prems(1) f have "w' = w2" by simp
    with q2 show ?thesis by simp
  next
    case None
    let ?w3 = "emits [Print (''Icon not found (Attempt '' @ py_str (int (RETRY_LIMIT - n)) @ ''/''
                           @ py_str (int RETRY_LIMIT) @ ''). Retrying...''),
                    Sleep (RETRY_DELAY_S * 1000)] w2"
    from None Suc.prems(1) f have "find_attempts E ts n ?w3 = Inr (r, w')" by simp
    moreover have "quiet w ?w3" using q2 by (auto intro!: quiet_intros)
    ultimately show ?thesis by (rule Suc.IH)
  qed
qed

lemma quiet_validate_poll: "quiet w w1 \<Longrightarrow> quiet w (snd (validate_poll E timeout w1))"
proof (induction E timeout w1 rule: validate_poll.induct)
  case (1 E timeout w1)
  show ?case
  proof (cases "clock w1 < timeout")
    case False
    then show ?thesis using "1.prems" by (subst validate_poll.simps) (auto intro!: quiet_intros)
  next
    case True
    obtain aw w2 where g: "get_notepad_windows_main E w1 = (aw, w2)"
      by (cases "get_notepad_windows_main E w1")
    then have w2: "w2 = emit (GetWindowsWithTitle ''Notepad'') w1"
      by (simp add: get_notepad_windows_main_def)
    have q2: "quiet w w2" unfolding w2 using "1.prems" by (auto intro!: quiet_intros)
    show ?thesis
    proof (cases "list_ex visible aw")
      case fin: True
      have "snd (validate_poll E timeout w1) =
              emits [Print ''Notepad successfully launched and validated.'', Sleep 1000] w2"
        using True g fin by (subst validate_poll.simps) auto
      then show ?thesis using q2 by (auto intro!: quiet_intros)
    next
      case again: False
      have "snd (validate_poll E timeout w1) = snd (validate_poll E timeout (sleep 200 w2))"
        using True g again by (subst validate_poll.simps) auto
      moreover have "quiet w (snd (validate_poll E timeout (sleep 200 w2)))"
        using q2 by (intro "1.IH"[OF True g[symmetric] again]) (auto intro!: quiet_intros)
      ultimately show ?thesis by simp
    qed
  qed
qed

lemma quiet_launch_and_validate:
  assumes "launch_and_validate_notepad E ts w1 = Inr (b, w')" and q: "quiet w w1"
  shows "quiet w w'"
proof -
  from assms(1) obtain r w2 where fa: "find_attempts E ts RETRY_LIMIT w1 = Inr (r, w2)"
    by (auto simp: launch_and_validate_notepad_def split: sum.splits)
  have q2: "quiet w w2" using fa q by (rule quiet_find_attempts)
  show ?thesis
  proof (cases r)
    case None
    with assms(1) fa have "w' = emit (Print ''Error: Icon not found after 3 attempts.'') w2"
      by (simp add: launch_and_validate_notepad_def)
    then show ?thesis using q2 by (auto intro!: quiet_intros)
  next
    case (Some c)
    let ?w3 = "emits [Print (''Double-clicking Notepad icon at '' @ py_tuple c),
                           DoubleClick (fst c) (snd c)] w2"
    have q3: "quiet w ?w3" using q2 by (auto intro!: quiet_intros)
    from Some assms(1) fa have "w' = snd (validate_poll E (clock ?w3 + 5000) ?w3)"
      by (auto simp: launch_and_validate_notepad_def Let_def dest: arg_cong[where f = snd])
    then show ?thesis using quiet_validate_poll[OF q3] by simp
  qed
qed

lemma grabs_simps [simp]:
  "grabs [] = 0" "grabs (e # es) = (if e = ScreenGrab then 1 else 0) + grabs es"
  "grabs (es @ fs) = grabs es + grabs fs"
  by (simp_all add: grabs_def)

lemma is_double_click_simps [simp]:
  "is_double_click (DoubleClick x y)" "\<not> is_double_click (Print s)"
  "\<not> is_double_click (PrintFound s m)" "\<not> is_double_click ScreenGrab"
  "\<not> is_double_click (Sleep d)" "\<not> is_double_click (GetWindowsWithTitle s)"
  by (simp_all add: is_double_click_def)

lemma double_clicks_simps [simp]:
  "double_clicks [] = []"
  "double_clicks (e # es) = (if is_double_click e then e # double_clicks es else double_clicks es)"
  "double_clicks (es @ fs) = double_clicks es @ double_clicks fs"
  by (simp_all add: double_clicks_def)







lemma process_single_post_runs:
  assumes "process_single_post E p ts w = Inr w'"
  shows "\<exists>b w3. launch_and_validate_notepad E ts
                    (close_existing_notepad E (emit (announcement p) w)) = Inr (b, w3) \<and>
           (if b then \<exists>u. runs w w' (announcement p # main_keys E p @ overwrite_keys E u)
            else runs w w' [announcement p])"
proof -
  let ?w1 = "emit (announcement p) w"
  let ?w2 = "close_existing_notepad E ?w1"
  have "runs w (emits [announcement p] w) ([] @ script [announcement p])"
    using runs_refl by (rule runs_emits)
  then have r1: "runs w ?w1 [announcement p]"
    by (simp add: script_def announcement_def)
  have r2: "runs w ?w2 [announcement p]"
    using r1 quiet_close_existing_notepad[OF quiet_refl] by (rule runs_quiet)
  from assms obtain b w3 where l: "launch_and_validate_notepad E ts ?w2 = Inr (b, w3)"
    by (auto simp: process_single_post_def Let_def announcement_def split: sum.splits)
  have r3: "runs w w3 [announcement p]"
    using r2 quiet_launch_and_validate[OF l quiet_refl] by (rule runs_quiet)
  show ?thesis
  proof (cases b)
    case False
    with assms l have "w' = emit (Print (''Skipping post '' @ py_str (post_id p) @ '' due to launch failure.'')) w3"
      by (simp add: process_single_post_def Let_def announcement_def)
    moreover have "quiet w3 (emit (Print (''Skipping post '' @ py_str (post_id p) @ '' due to launch failure.'')) w3)"
      by (rule quiet_emit) simp
    ultimately have "runs w w' [announcement p]" using r3 by (auto intro: runs_quiet)
    with l False show ?thesis by (intro exI[of _ b] exI[of _ w3]) simp
  next
    case True
    let ?aw = "fst (get_notepad_windows_main E w3)"
    let ?w4 = "emit (GetWindowsWithTitle ''Notepad'') w3"
    let ?w5 = "(case ?aw of
                 [] \<Rightarrow> ?w4
               | win # _ \<Rightarrow>
                   emits [Activate win, Sleep 500,
                          Click (win_left win + win_width win div 2)
                                (win_top win + win_height win div 2),
                          Sleep 300] ?w4)"
    let ?k1 = "[Hotkey [''ctrl'', ''n''], Sleep 500,
                                   Hotkey [''ctrl'', ''a''], Sleep 200,
                                   Press ''delete'', Sleep 200]"
    let ?k2 = "[ClipboardCopy (post_content p), Sleep 100,
                                   Hotkey [''ctrl'', ''v''], Sleep 300,
                                   Hotkey [''ctrl'', ''s''], Sleep 1000]"
    let ?k3 = "[TypeWrite (path_join E (PROJECT_PATH E) (post_filename p)), Press ''enter'', Sleep 500]"
    let ?w8 = "emits ?k3 (emits ?k2 (emits ?k1 ?w5))"
    let ?cw = "windows_with_title E ?w8 ''Confirm Save As''"
    let ?w9 = "emit (GetWindowsWithTitle ''Confirm Save As'') ?w8"
    let ?w10 = "(if ?cw \<noteq> [] then
                   emits [Print ''File exists. Overwriting.'', Press ''y'', Sleep 500] ?w9
                 else ?w9)"
    let ?w11 = "snd (close_notepad_fully E ?w10)"
    have q5: "quiet w3 ?w5"
      by (cases ?aw) (auto intro!: quiet_intros)
    have r5: "runs w ?w5 [announcement p]" using r3 q5 by (rule runs_quiet)
    have "runs w ?w8 ((([announcement p] @ script ?k1) @ script ?k2) @ script ?k3)"
      by (intro runs_emits r5)
    then have r8: "runs w ?w8 (announcement p # main_keys E p)"
      by (simp add: script_def main_keys_def)
    have r9: "runs w ?w9 (announcement p # main_keys E p)"
      using r8 quiet_emit[of "GetWindowsWithTitle ''Confirm Save As''" ?w8] by (auto intro: runs_quiet)
    have "runs w (emits [Print ''File exists. Overwriting.'', Press ''y'', Sleep 500] ?w9)
            ((announcement p # main_keys E p) @ script [Print ''File exists. Overwriting.'', Press ''y'', Sleep 500])"
      using r9 by (rule runs_emits)
    then have ry: "runs w (emits [Print ''File exists. Overwriting.'', Press ''y'', Sleep 500] ?w9)
            (announcement p # main_keys E p @ [Press ''y''])"
      by (simp add: script_def)
    have r10: "runs w ?w10 (announcement p # main_keys E p @ overwrite_keys E ?w8)"
      using r9 ry by (cases "?cw \<noteq> []") (simp_all add: overwrite_keys_def)
    have q11: "quiet ?w10 ?w11"
      by (rule quiet_close_notepad_fully[OF quiet_refl])
    have w': "w' = emit (Print (''Successfully processed Post ID: '' @ py_str (post_id p))) ?w11 \<or>
          w' = emit (Print (''Successfully processed Post ID: '' @ py_str (post_id p)))
                 (emit (Print (''Warning: Notepad may not have closed completely for post ''
                                                      @ py_str (post_id p))) ?w11)"
      using assms l True
      by (auto simp: process_single_post_def Let_def announcement_def get_notepad_windows_main_def
          split: prod.splits if_splits)
    have "quiet ?w10 w'"
      using w' q11 by (auto intro!: quiet_intros)
    with r10 have "runs w w' (announcement p # main_keys E p @ overwrite_keys E ?w8)"
      by (rule runs_quiet)
    with l True show ?thesis by (intro exI[of _ b] exI[of _ w3]) auto
  qed
qed

lemma announcements_script: "announcements (script es) = announcements es"
proof -
  have "is_announcement e \<Longrightarrow> \<not> housekeeping e" for e
    by (cases e) (auto simp: is_announcement_def)
  then show ?thesis
    unfolding announcements_def script_def by (induction es) auto
qed

lemma runs_announcements:
  "runs w w' sc \<Longrightarrow> \<exists>es. w' = emits es w \<and> announcements es = announcements sc"
  unfolding runs_def using announcements_script by metis

lemma process_single_post_announces:
  assumes "process_single_post E p ts w = Inr w'"
  shows "\<exists>es. w' = emits es w \<and> announcements es = [announcement p]"
proof -
  have a: "announcements [announcement p] = [announcement p]"
       "announcements (announcement p # main_keys E p @ overwrite_keys E u) = [announcement p]" for u
    by (simp_all add: announcements_def is_announcement_def announcement_def main_keys_def
          overwrite_keys_def)
  from process_single_post_runs[OF assms] have
    "runs w w' [announcement p] \<or>
     (\<exists>u. runs w w' (announcement p # main_keys E p @ overwrite_keys E u))"
    by (metis (full_types))
  then show ?thesis
    using runs_announcements a by metis
qed

lemma process_posts_announces:
  "process_posts E ts ps w = Inr w' \<Longrightarrow>
   \<exists>es. w' = emits es w \<and> announcements es = map announcement ps"
proof (induction ps arbitrary: w)
  case Nil
  then have "w' = emits [] w \<and> announcements [] = map announcement []"
    by (simp add: announcements_def)
  then show ?case by blast
next
  case (Cons p ps)
  from Cons.prems obtain w1 where p1: "process_single_post E p ts w = Inr w1"
    and rest: "process_posts E ts ps w1 = Inr w'"
    by (auto split: sum.splits)
  from process_single_post_announces[OF p1] obtain es1 where
    es1: "w1 = emits es1 w" "announcements es1 = [announcement p]" by blast
  from Cons.IH[OF rest] obtain es2 where
    es2: "w' = emits es2 w1" "announcements es2 = map announcement ps" by blast
  have "w' = emits (es1 @ es2) w" using es1 es2 by (simp add: emits_append)
  moreover have "announcements (es1 @ es2) = map announcement (p # ps)"
    using es1 es2 by (simp add: announcements_def)
  ultimately show ?case by blast
qed

lemma find_attempts_total:
  "colour_8bit ts \<Longrightarrow> \<exists>r w'. find_attempts E ts n w = Inr (r, w')"
proof (induction n arbitrary: w)
  case 0
  then show ?case by simp
next
  case (Suc n)
  from find_main_accepts[OF Suc.prems, of E w] obtain r w1 where
    f: "find_icon_with_multiple_templates E ts w = Inr (r, w1)" by blast
  show ?case
  proof (cases r)
    case None
    then show ?thesis using f Suc.IH[OF Suc.prems] by simp
  next
    case (Some c)
    then show ?thesis using f by simp
  qed
qed

lemma launch_and_validate_total:
  assumes "colour_8bit ts"
  shows "\<exists>b w'. launch_and_validate_notepad E ts w = Inr (b, w')"
proof -
  from find_attempts_total[OF assms, of E RETRY_LIMIT w] obtain r w1 where
    "find_attempts E ts RETRY_LIMIT w = Inr (r, w1)" by blast
  then show ?thesis
    by (cases r; cases "validate_poll E (clock (emits [Print (''Double-clicking Notepad icon at '' @ py_tuple (the r)),
                           DoubleClick (fst (the r)) (snd (the r))] w1) + 5000) (emits [Print (''Double-clicking Notepad icon at '' @ py_tuple (the r)),
                           DoubleClick (fst (the r)) (snd (the r))] w1)")
       (auto simp: launch_and_validate_notepad_def Let_def)
qed

lemma process_single_post_total:
  assumes "colour_8bit ts"
  shows "\<exists>w'. process_single_post E p ts w = Inr w'"
proof -
  let ?w2 = "close_existing_notepad E (emit (Print (CHR 0x0A # ''Processing Post ID: '' @ py_str (post_id p))) w)"
  from launch_and_validate_total[OF assms, of E ?w2] obtain b w3 where
    "launch_and_validate_notepad E ts ?w2 = Inr (b, w3)" by blast
  then show ?thesis
    by (cases b) (auto simp: process_single_post_def Let_def split: prod.splits)
qed

lemma process_posts_total:
  "colour_8bit ts \<Longrightarrow> \<exists>w'. process_posts E ts ps w = Inr w'"
proof (induction ps arbitrary: w)
  case Nil
  then show ?case by simp
next
  case (Cons p ps)
  from process_single_post_total[OF Cons.prems, of E p w] obtain w1 where
    "process_single_post E p ts w = Inr w1" by blast
  then show ?case using Cons.IH[OF Cons.prems, of w1] by simp
qed

lemma main_nonempty:
  "ts \<noteq> [] \<Longrightarrow> posts \<noteq> [] \<Longrightarrow>
   main E ts (Some posts) w =
     process_posts E ts (take 10 posts)
       (emits [Print ''Starting automation. Please do not move the mouse.'', Sleep 3000] w)"
  by (cases posts)
     (simp_all add: main_def del: emits_Cons emits_Nil take_Cons_numeral process_posts.simps)

lemma main_total:
  assumes "colour_8bit ts"
  shows "\<exists>w'. main E ts posts w = Inr w'"
proof (cases "ts = [] \<or> posts = None \<or> posts = Some []")
  case True
  then show ?thesis by (auto simp: main_def)
next
  case False
  then obtain ps where "posts = Some ps" "ps \<noteq> []" "ts \<noteq> []" by (cases posts) auto
  then show ?thesis
    using process_posts_total[OF assms] main_nonempty[of ts ps E w] by simp
qed

lemma main_take: "main E ts (Some posts) w = main E ts (Some (take 10 posts)) w"
proof (cases "ts = [] \<or> posts = []")
  case True
  then show ?thesis by (auto simp: main_def)
next
  case False
  then have "ts \<noteq> []" "posts \<noteq> []" "take 10 posts \<noteq> []" by auto
  then show ?thesis by (simp add: main_nonempty)
qed

lemma main_announces:
  assumes "ts \<noteq> []" and "main E ts (Some posts) w = Inr w'"
  shows "\<exists>es. w' = emits es w \<and> announcements es = map announcement (take 10 posts)"
proof (cases "posts = []")
  case True
  with assms have "w' = emits [Print ''Exiting due to API failure.''] w"
    by (simp add: main_def)
  moreover have "announcements [Print ''Exiting due to API failure.''] = map announcement (take 10 posts)"
    using True by (simp add: announcements_def is_announcement_def)
  ultimately show ?thesis by blast
next
  case False
  let ?es0 = "[Print ''Starting automation. Please do not move the mouse.'', Sleep 3000]"
  have "process_posts E ts (take 10 posts) (emits ?es0 w) = Inr w'"
    using assms(2) unfolding main_nonempty[OF assms(1) False] .
  from process_posts_announces[OF this] obtain es where
    es: "w' = emits es (emits ?es0 w)" "announcements es = map announcement (take 10 posts)"
    by blast
  have "w' = emits (?es0 @ es) w" using es(1) by (simp only: emits_append)
  moreover have "announcements (?es0 @ es) = map announcement (take 10 posts)"
    using es(2) by (simp add: announcements_def is_announcement_def)
  ultimately show ?thesis by blast
qed

section \<open>Lemmas on the polling loops of \<^verbatim>\<open>src/notepad.py\<close>\<close>

lemma clock_wait [simp]: "clock (wait E w) = clock w + SPACING E"
  by (simp add: wait_def sleep_def)




lemma polls_0 [simp]: "polls sp 0 = 0"
  by (cases sp) (simp_all add: polls_def)








section \<open>Lemmas on the launch of \<^verbatim>\<open>src/notepad.py\<close>\<close>

lemma searches_append [simp]: "searches (es @ fs) = searches es + searches fs"
  by (simp add: searches_def)

lemma searches_Nil [simp]: "searches [] = 0"
  by (simp add: searches_def)


lemma searches_Cons [simp]:
  "searches (e # es) = (if is_bot_find e then 1 else 0) + searches es"
  by (simp add: searches_def)

lemma is_bot_find_simps [simp]:
  "is_bot_find (BotFind l m)" "\<not> is_bot_find (BotGetCoords l m)" "\<not> is_bot_find (Sleep d)"
  by (simp_all add: is_bot_find_def)

lemma set_cache_fields [simp]:
  "trace (set_cache c w) = trace w" "clock (set_cache c w) = clock w"
  "icon_cache (set_cache c w) = Some c"
  by (simp_all add: set_cache_def)

lemma invalidate_cache_fields [simp]:
  "trace (invalidate_cache w) = trace w" "clock (invalidate_cache w) = clock w"
  "icon_cache (invalidate_cache w) = None"
  by (simp_all add: invalidate_cache_def)

lemma wait_fields [simp]:
  "trace (wait E w) = trace w @ [Sleep (SPACING E)]" "icon_cache (wait E w) = icon_cache w"
  by (simp_all add: wait_def sleep_def)

lemma snd_get_notepad_windows [simp]:
  "snd (get_notepad_windows E w) = emit (GetWindowsWithTitle ''Notepad'') w"
  by (simp add: get_notepad_windows_def)



















section \<open>Lemmas on the write flow of \<^verbatim>\<open>src/notepad.py\<close>\<close>













section \<open>The best match\<close>

text \<open>
  Claim C1, as amended. \<open>find_icon_with_multiple_templates\<close> of \<^verbatim>\<open>main.py\<close> returns the
  centre of a template whose confidence is the maximum over all the templates it
  evaluated on the capture. \<open>find_icon\<close> of \<^verbatim>\<open>src/icon_detector.py\<close> does not: a first
  label that the bot finds at the matching threshold is returned whatever follows it in
  the list.
\<close>

theorem best_match_selected:
  "(find_icon_with_multiple_templates E ts w = Inr (Some c, w') \<longrightarrow>
      (\<exists>nt \<in> set (evaluated (grab E w) ts).
          c = centre_of (grab E w) nt \<and>
          (\<forall>nt' \<in> set (evaluated (grab E w) ts).
             confidence (grab E w) nt' \<le> confidence (grab E w) nt))) \<and>
   (bot_find E v l (MATCHING_THRESHOLD E) \<and>
    bot_coords E (emit (BotFind l (MATCHING_THRESHOLD E)) v) l (MATCHING_THRESHOLD E)
      = Some (Some cx, Some cy) \<longrightarrow>
      (\<exists>v'. find_icon E (l # ls) False click v = Inr (Some (py_int cx, py_int cy), v')))"
  using find_main_selects_max[of E ts w c w'] find_icon_first_found[of E v l cx cy ls click]
  by blast

lemma run_AB:
  "find_icon_with_multiple_templates desktop_AB [(''A'', template_A), (''B'', template_B)] world0
     = Inr (Some (110, 110),
            \<lparr>icon_cache = None, clock = 0, trace = [ScreenGrab, PrintFound ''B'' 0.92]\<rparr>)"
  by (simp add: find_icon_with_multiple_templates_def desktop_AB_def desktop_def capture_AB_def
        template_A_def template_B_def world0_def emit_def too_big_def best_init_def
        MATCH_THRESHOLD_def cvtColor_raises_def template_bgr_def matchTemplate_raises_def)

text \<open>
  The claim as stated fails for \<open>find_icon\<close>: with A (confidence 0.85) listed before B
  (confidence 0.92) and the threshold 0.8, it returns the coordinates of A.
\<close>

theorem find_icon_first_label_counterexample:
  "find_icon desktop_AB [''A'', ''B''] False False world0 =
     Inr (Some (10, 20),
          \<lparr>icon_cache = Some (10, 20), clock = 0,
           trace = [BotFind ''A'' 0.8, BotGetCoords ''A'' 0.8]\<rparr>) \<and>
   bot_find desktop_AB world0 ''B'' (MATCHING_THRESHOLD desktop_AB) \<and>
   bot_coords desktop_AB world0 ''B'' (MATCHING_THRESHOLD desktop_AB) = Some (Some 110, Some 110) \<and>
   icons_AB ''A'' = Some (0.85, 10, 20) \<and> icons_AB ''B'' = Some (0.92, 110, 110)"
  by (simp add: find_icon_def desktop_AB_def desktop_def icons_AB_def world0_def emit_def
        set_cache_def int_of_def py_int_numeral)

theorem best_match_selected_witness:
  "find_icon_with_multiple_templates desktop_AB [(''A'', template_A), (''B'', template_B)] world0
     = Inr (Some (110, 110),
            \<lparr>icon_cache = None, clock = 0, trace = [ScreenGrab, PrintFound ''B'' 0.92]\<rparr>) \<and>
   (\<exists>nt \<in> set (evaluated capture_AB [(''A'', template_A), (''B'', template_B)]).
       (110, 110) = centre_of capture_AB nt \<and>
       confidence capture_AB (''A'', template_A) \<le> confidence capture_AB nt \<and>
       confidence capture_AB (''B'', template_B) \<le> confidence capture_AB nt) \<and>
   (\<exists>v'. find_icon desktop_AB [''A'', ''B''] False False world0 = Inr (Some (10, 20), v'))"
proof -
  let ?ts = "[(''A'', template_A), (''B'', template_B)]"
  let ?w' = "\<lparr>icon_cache = None, clock = 0, trace = [ScreenGrab, PrintFound ''B'' 0.92]\<rparr>"
  have g: "grab desktop_AB world0 = capture_AB"
    by (simp add: desktop_AB_def desktop_def)
  have ev: "evaluated capture_AB ?ts = ?ts"
    by (simp add: evaluated_def too_big_def capture_AB_def template_A_def template_B_def)
  have f: "bot_find desktop_AB world0 ''A'' (MATCHING_THRESHOLD desktop_AB)"
    by (simp add: desktop_AB_def desktop_def icons_AB_def)
  have co: "bot_coords desktop_AB (emit (BotFind ''A'' (MATCHING_THRESHOLD desktop_AB)) world0)
              ''A'' (MATCHING_THRESHOLD desktop_AB) = Some (Some 10, Some 20)"
    by (simp add: desktop_AB_def desktop_def icons_AB_def)
  note inst = best_match_selected[of desktop_AB ?ts world0 "(110, 110)" ?w' world0 "''A''" 10 20
      "[''B'']" False]
  from inst run_AB have 1: "\<exists>nt \<in> set (evaluated capture_AB ?ts).
       (110, 110) = centre_of capture_AB nt \<and>
       (\<forall>nt' \<in> set (evaluated capture_AB ?ts).
             confidence capture_AB nt' \<le> confidence capture_AB nt)"
    unfolding g by blast
  from inst f co
  have 2: "\<exists>v'. find_icon desktop_AB [''A'', ''B''] False False world0 = Inr (Some (10, 20), v')"
    by (simp add: py_int_numeral)
  from 1 have "\<exists>nt \<in> set (evaluated capture_AB ?ts).
       (110, 110) = centre_of capture_AB nt \<and>
       confidence capture_AB (''A'', template_A) \<le> confidence capture_AB nt \<and>
       confidence capture_AB (''B'', template_B) \<le> confidence capture_AB nt"
    unfolding ev by auto
  with run_AB 2 show ?thesis by blast
qed

section \<open>Acceptance of a match\<close>

lemma find_labels_sound:
  "find_labels E click thr ls w = Inr (Some c, w') \<Longrightarrow>
   \<exists>l \<in> set ls. \<exists>u cx cy. bot_find E u l thr \<and>
      bot_coords E (emit (BotFind l thr) u) l thr = Some (Some cx, Some cy) \<and>
      c = (py_int cx, py_int cy)"
proof (induction ls arbitrary: w)
  case Nil
  then show ?case by simp
next
  case (Cons l ls)
  show ?case
  proof (cases "bot_find E w l thr")
    case False
    with Cons.prems have "find_labels E click thr ls (emit (BotFind l thr) w) = Inr (Some c, w')"
      by (simp add: Let_def)
    from Cons.IH[OF this] show ?thesis by auto
  next
    case found: True
    show ?thesis
    proof (cases "bot_coords E (emit (BotFind l thr) w) l thr")
      case None
      with found Cons.prems
      have "find_labels E click thr ls (emit (BotGetCoords l thr) (emit (BotFind l thr) w))
              = Inr (Some c, w')"
        by (simp add: Let_def)
      from Cons.IH[OF this] show ?thesis by auto
    next
      case (Some p)
      obtain a b where p: "p = (a, b)" by (cases p)
      with found Some Cons.prems obtain cx cy where
        "a = Some cx" "b = Some cy" "c = (py_int cx, py_int cy)"
        by (auto simp: Let_def int_of_def split: option.splits)
      with found Some p show ?thesis by auto
    qed
  qed
qed

lemma find_icon_sound:
  assumes "find_icon E ls False click v = Inr (Some c, v')"
  shows "\<exists>l \<in> set ls. \<exists>thr \<in> {MATCHING_THRESHOLD E, MATCHING_THRESHOLD E - 0.1}.
           \<exists>u cx cy. bot_find E u l thr \<and>
             bot_coords E (emit (BotFind l thr) u) l thr = Some (Some cx, Some cy) \<and>
             c = (py_int cx, py_int cy)"
proof -
  let ?T = "MATCHING_THRESHOLD E"
  from assms obtain r1 w1 where r1: "find_labels E click ?T ls v = Inr (r1, w1)"
    by (cases "find_labels E click ?T ls v") (auto simp: find_icon_def)
  show ?thesis
  proof (cases r1)
    case (Some c1)
    with r1 assms have "find_labels E click ?T ls v = Inr (Some c, v')"
      by (simp add: find_icon_def)
    from find_labels_sound[OF this] show ?thesis by blast
  next
    case None
    with r1 assms have "find_labels E click (?T - 0.1) ls w1 = Inr (Some c, v')"
      by (auto simp: find_icon_def split: sum.splits option.splits)
    from find_labels_sound[OF this] show ?thesis by blast
  qed
qed

text \<open>
  A template of 16-bit depth that fits the capture reaches \<^verbatim>\<open>cv2.matchTemplate\<close>, which
  rejects it: the element types of image and template differ.
\<close>

lemma deep_template_raises:
  "find_icon_with_multiple_templates desktop_AB
     [(''A'', template_A), (''deep'', template_deep)] world0 = Inl CvError"
  by (simp add: find_icon_with_multiple_templates_def desktop_AB_def desktop_def capture_AB_def
        template_A_def template_deep_def too_big_def best_init_def cvtColor_raises_def
        template_bgr_def matchTemplate_raises_def)

text \<open>
  Claim C5, as amended. Whenever \<open>find_icon_with_multiple_templates\<close> returns, it returns
  a match exactly when the best confidence over the evaluated templates reaches
  \<open>MATCH_THRESHOLD\<close>, and the match is the centre \<open>(loc_x + w div 2, loc_y + h div 2)\<close>
  of a template with that confidence; otherwise it returns "not found". It does return on
  templates that are 8-bit images of three or four channels. \<open>find_icon\<close> of
  \<^verbatim>\<open>src/icon_detector.py\<close> has another rule: what it returns are the coordinates the bot
  reported, truncated to integers, for a label found at \<open>MATCHING_THRESHOLD\<close> or at
  \<open>MATCHING_THRESHOLD - 0.1\<close>.
\<close>

theorem accept_iff_threshold:
  "(find_icon_with_multiple_templates E ts w = Inr (r, w') \<longrightarrow>
      (r \<noteq> None \<longleftrightarrow> MATCH_THRESHOLD \<le> best_confidence (grab E w) ts) \<and>
      (\<forall>c. r = Some c \<longrightarrow>
         (\<exists>nt \<in> set (evaluated (grab E w) ts).
             confidence (grab E w) nt = best_confidence (grab E w) ts \<and>
             c = centre_of (grab E w) nt))) \<and>
   (colour_8bit ts \<longrightarrow> (\<exists>r w'. find_icon_with_multiple_templates E ts w = Inr (r, w'))) \<and>
   (find_icon E ls False click v = Inr (Some c', v') \<longrightarrow>
      (\<exists>l \<in> set ls. \<exists>thr \<in> {MATCHING_THRESHOLD E, MATCHING_THRESHOLD E - 0.1}.
           \<exists>u cx cy. bot_find E u l thr \<and>
             bot_coords E (emit (BotFind l thr) u) l thr = Some (Some cx, Some cy) \<and>
             c' = (py_int cx, py_int cy)))"
proof (intro conjI impI)
  assume "find_icon_with_multiple_templates E ts w = Inr (r, w')"
  from find_main_rule[OF this]
  show "r \<noteq> None \<longleftrightarrow> MATCH_THRESHOLD \<le> best_confidence (grab E w) ts"
    and "\<forall>c. r = Some c \<longrightarrow>
         (\<exists>nt \<in> set (evaluated (grab E w) ts).
             confidence (grab E w) nt = best_confidence (grab E w) ts \<and>
             c = centre_of (grab E w) nt)"
    by blast+
next
  assume "colour_8bit ts"
  from find_main_accepts[OF this, of E w]
  show "\<exists>r w'. find_icon_with_multiple_templates E ts w = Inr (r, w')" by blast
next
  assume "find_icon E ls False click v = Inr (Some c', v')"
  then show "\<exists>l \<in> set ls. \<exists>thr \<in> {MATCHING_THRESHOLD E, MATCHING_THRESHOLD E - 0.1}.
           \<exists>u cx cy. bot_find E u l thr \<and>
             bot_coords E (emit (BotFind l thr) u) l thr = Some (Some cx, Some cy) \<and>
             c' = (py_int cx, py_int cy)"
    by (rule find_icon_sound)
qed

text \<open>
  The claim as stated fails for \<open>find_icon\<close>: a label whose confidence 0.75 is below the
  threshold 0.8 is accepted.
\<close>

theorem lowered_threshold_accepts_counterexample:
  "find_icon (desktop icons_weak blank_capture no_windows) [''A''] False False world0
     = Inr (Some (10, 20),
            \<lparr>icon_cache = Some (10, 20), clock = 0,
             trace = [BotFind ''A'' 0.8, BotFind ''A'' 0.7, BotGetCoords ''A'' 0.7]\<rparr>) \<and>
   icons_weak ''A'' = Some (0.75, 10, 20) \<and>
   MATCHING_THRESHOLD (desktop icons_weak blank_capture no_windows) = 0.8 \<and>
   \<not> bot_find (desktop icons_weak blank_capture no_windows) world0 ''A'' 0.8"
  by (simp add: find_icon_def desktop_def icons_weak_def world0_def emit_def
        set_cache_def int_of_def py_int_numeral)

lemma best_confidence_AB:
  "best_confidence capture_AB [(''A'', template_A), (''B'', template_B)] = 0.92"
  by (simp add: best_confidence_def evaluated_def too_big_def capture_AB_def template_A_def
      template_B_def confidence_def)

lemma find_icon_AB:
  "find_icon desktop_AB [''A'', ''B''] False False world0 =
     Inr (Some (10, 20),
          \<lparr>icon_cache = Some (10, 20), clock = 0,
           trace = [BotFind ''A'' 0.8, BotGetCoords ''A'' 0.8]\<rparr>)"
  by (simp add: find_icon_def desktop_AB_def desktop_def icons_AB_def world0_def emit_def
        set_cache_def int_of_def py_int_numeral)

theorem accept_iff_threshold_witness:
  "colour_8bit [(''A'', template_A), (''B'', template_B)] \<and>
   find_icon_with_multiple_templates desktop_AB [(''A'', template_A), (''B'', template_B)] world0
     = Inr (Some (110, 110),
            \<lparr>icon_cache = None, clock = 0, trace = [ScreenGrab, PrintFound ''B'' 0.92]\<rparr>) \<and>
   MATCH_THRESHOLD \<le> best_confidence capture_AB [(''A'', template_A), (''B'', template_B)] \<and>
   (\<exists>nt \<in> set (evaluated capture_AB [(''A'', template_A), (''B'', template_B)]).
       confidence capture_AB nt = 0.92 \<and> (110, 110) = centre_of capture_AB nt) \<and>
   find_icon desktop_AB [''A'', ''B''] False False world0 =
     Inr (Some (10, 20),
          \<lparr>icon_cache = Some (10, 20), clock = 0,
           trace = [BotFind ''A'' 0.8, BotGetCoords ''A'' 0.8]\<rparr>) \<and>
   (\<exists>l \<in> set [''A'', ''B''].
      \<exists>thr \<in> {MATCHING_THRESHOLD desktop_AB, MATCHING_THRESHOLD desktop_AB - 0.1}.
        \<exists>u cx cy. bot_find desktop_AB u l thr \<and>
          bot_coords desktop_AB (emit (BotFind l thr) u) l thr = Some (Some cx, Some cy) \<and>
          (10, 20) = (py_int cx, py_int cy))"
proof -
  let ?ts = "[(''A'', template_A), (''B'', template_B)]"
  let ?w' = "\<lparr>icon_cache = None, clock = 0, trace = [ScreenGrab, PrintFound ''B'' 0.92]\<rparr>"
  let ?v' = "\<lparr>icon_cache = Some (10, 20), clock = 0,
           trace = [BotFind ''A'' 0.8, BotGetCoords ''A'' 0.8]\<rparr>"
  have hc: "colour_8bit ?ts"
    by (simp add: colour_8bit_def template_A_def template_B_def cvtColor_raises_def
          matchTemplate_raises_def)
  have g: "grab desktop_AB world0 = capture_AB"
    by (simp add: desktop_AB_def desktop_def)
  note inst = accept_iff_threshold[of desktop_AB ?ts world0 "Some (110, 110)" ?w'
      "[''A'', ''B'']" False world0 "(10, 20)" ?v']
  from inst run_AB have 1: "MATCH_THRESHOLD \<le> best_confidence capture_AB ?ts"
    and 2: "\<exists>nt \<in> set (evaluated capture_AB ?ts).
       confidence capture_AB nt = best_confidence capture_AB ?ts \<and>
       (110, 110) = centre_of capture_AB nt"
    unfolding g by blast+
  from inst hc have 3: "\<exists>r w'. find_icon_with_multiple_templates desktop_AB ?ts world0 = Inr (r, w')"
    by blast
  from inst find_icon_AB have 4: "\<exists>l \<in> set [''A'', ''B''].
      \<exists>thr \<in> {MATCHING_THRESHOLD desktop_AB, MATCHING_THRESHOLD desktop_AB - 0.1}.
        \<exists>u cx cy. bot_find desktop_AB u l thr \<and>
          bot_coords desktop_AB (emit (BotFind l thr) u) l thr = Some (Some cx, Some cy) \<and>
          (10, 20) = (py_int cx, py_int cy)"
    by blast
  from 2 have 5: "\<exists>nt \<in> set (evaluated capture_AB ?ts).
       confidence capture_AB nt = 0.92 \<and> (110, 110) = centre_of capture_AB nt"
    unfolding best_confidence_AB .
  from hc run_AB 1 5 find_icon_AB 4 show ?thesis by blast
qed

section \<open>Templates larger than the capture\<close>

text \<open>
  A colour image (three or four channels) that is larger than the capture is skipped and
  logged: the loop goes on with the best match unchanged.
\<close>

lemma too_big_template_skipped:
  "\<not> cvtColor_raises t \<Longrightarrow> too_big S t \<Longrightarrow>
   match_loop S ((name, t) # ts) b w = match_loop S ts b (emit (Print (skip_message name)) w)"
  using cvtColor_template_bgr[of t] by simp

text \<open>
  Claim C8 at a failing input. A grayscale template (an array of two dimensions) larger
  than the capture is not skipped: \<^verbatim>\<open>template.shape[2]\<close> raises before the size check,
  and the templates after it are not evaluated.
\<close>

theorem oversized_gray_template_raises:
  "too_big blank_capture big_gray \<and>
   find_icon_with_multiple_templates (desktop no_icons blank_capture no_windows)
     [(''big_gray.png'', big_gray), (''A'', template_A)] world0 = Inl IndexError"
  by (simp add: find_icon_with_multiple_templates_def too_big_def blank_capture_def big_gray_def
        desktop_def)

section \<open>The thresholds of one call\<close>

text \<open>
  Claim C2, as amended. A single call of \<open>find_icon\<close> tries every label at
  \<open>MATCHING_THRESHOLD\<close> and then, in the same call, every label at
  \<open>MATCHING_THRESHOLD - 0.1\<close>: when the bot finds nothing these are exactly the calls it
  makes, and a label found only at the lowered threshold is accepted by that call.
\<close>

theorem thresholds_within_one_call:
  "((\<forall>u l m. \<not> bot_find E u l m) \<longrightarrow>
      find_icon E ls False click w =
        Inr (None, emits (map (\<lambda>l. BotFind l (MATCHING_THRESHOLD E)) ls @
                          map (\<lambda>l. BotFind l (MATCHING_THRESHOLD E - 0.1)) ls) w)) \<and>
   (\<not> bot_find E w l (MATCHING_THRESHOLD E) \<and>
    bot_find E (emit (BotFind l (MATCHING_THRESHOLD E)) w) l (MATCHING_THRESHOLD E - 0.1) \<and>
    bot_coords E (emits [BotFind l (MATCHING_THRESHOLD E), BotFind l (MATCHING_THRESHOLD E - 0.1)] w)
       l (MATCHING_THRESHOLD E - 0.1) = Some (Some cx, Some cy) \<longrightarrow>
      (\<exists>w'. find_icon E [l] False click w = Inr (Some (py_int cx, py_int cy), w')))"
proof (intro conjI impI)
  assume "\<forall>u l m. \<not> bot_find E u l m"
  then show "find_icon E ls False click w =
        Inr (None, emits (map (\<lambda>l. BotFind l (MATCHING_THRESHOLD E)) ls @
                          map (\<lambda>l. BotFind l (MATCHING_THRESHOLD E - 0.1)) ls) w)"
    by (simp add: find_icon_def find_labels_none emits_append)
next
  assume "\<not> bot_find E w l (MATCHING_THRESHOLD E) \<and>
    bot_find E (emit (BotFind l (MATCHING_THRESHOLD E)) w) l (MATCHING_THRESHOLD E - 0.1) \<and>
    bot_coords E (emits [BotFind l (MATCHING_THRESHOLD E), BotFind l (MATCHING_THRESHOLD E - 0.1)] w)
       l (MATCHING_THRESHOLD E - 0.1) = Some (Some cx, Some cy)"
  then show "\<exists>w'. find_icon E [l] False click w = Inr (Some (py_int cx, py_int cy), w')"
    by (simp add: find_icon_def Let_def int_of_def)
qed

text \<open>
  The claim as stated fails: one call, threshold 0.8, applies 0.7 and accepts at it.
\<close>

theorem lowered_threshold_in_call_counterexample:
  "find_icon (desktop icons_faint blank_capture no_windows) [''B''] False False world0 =
     Inr (Some (300, 40),
          \<lparr>icon_cache = Some (300, 40), clock = 0,
           trace = [BotFind ''B'' 0.8, BotFind ''B'' 0.7, BotGetCoords ''B'' 0.7]\<rparr>)"
  by (simp add: find_icon_def desktop_def icons_faint_def world0_def emit_def
        set_cache_def int_of_def py_int_numeral)

theorem thresholds_within_one_call_witness:
  "find_icon (desktop no_icons blank_capture no_windows) [''A'', ''B''] False False world0 =
     Inr (None, \<lparr>icon_cache = None, clock = 0,
             trace = [BotFind ''A'' 0.8, BotFind ''B'' 0.8, BotFind ''A'' 0.7, BotFind ''B'' 0.7]\<rparr>) \<and>
   (\<exists>w'. find_icon (desktop icons_faint blank_capture no_windows) [''B''] False False world0
     = Inr (Some (300, 40), w'))"
proof -
  let ?N = "desktop no_icons blank_capture no_windows"
  let ?F = "desktop icons_faint blank_capture no_windows"
  have n: "\<forall>u l m. \<not> bot_find ?N u l m"
    by (simp add: desktop_def no_icons_def)
  have 1: "find_icon ?N [''A'', ''B''] False False world0 =
     Inr (None, \<lparr>icon_cache = None, clock = 0,
             trace = [BotFind ''A'' 0.8, BotFind ''B'' 0.8, BotFind ''A'' 0.7, BotFind ''B'' 0.7]\<rparr>)"
    using thresholds_within_one_call[of ?N "[''A'', ''B'']" False world0] n
    by (simp add: desktop_def world0_def emit_def)
  have 2: "\<exists>w'. find_icon ?F [''B''] False False world0 = Inr (Some (300, 40), w')"
    using thresholds_within_one_call[of ?F _ False world0 "''B''" 300 40]
    by (simp add: desktop_def icons_faint_def py_int_numeral)
  from 1 2 show ?thesis by blast
qed

section \<open>The window filter\<close>

lemma py_in_iff: "py_in sub s \<longleftrightarrow> (\<exists>a b. s = a @ sub @ b)"
proof (induction s)
  case Nil
  then show ?case by auto
next
  case (Cons c cs)
  show ?case
  proof
    assume "py_in sub (c # cs)"
    then consider "take (length sub) (c # cs) = sub" | "py_in sub cs" by auto
    then show "\<exists>a b. c # cs = a @ sub @ b"
    proof cases
      case 1
      then have "c # cs = [] @ sub @ drop (length sub) (c # cs)"
        by (metis append_Nil append_take_drop_id)
      then show ?thesis by blast
    next
      case 2
      with Cons.IH obtain a b where "cs = a @ sub @ b" by blast
      then have "c # cs = (c # a) @ sub @ b" by simp
      then show ?thesis by blast
    qed
  next
    assume "\<exists>a b. c # cs = a @ sub @ b"
    then obtain a b where ab: "c # cs = a @ sub @ b" by blast
    show "py_in sub (c # cs)"
    proof (cases a)
      case Nil
      with ab have "take (length sub) (c # cs) = sub" by simp
      then show ?thesis by simp
    next
      case (Cons x a')
      with ab have "cs = a' @ sub @ b" by simp
      with Cons.IH have "py_in sub cs" by blast
      then show ?thesis by simp
    qed
  qed
qed

lemma endswith_iff: "endswith s suffix \<longleftrightarrow> (\<exists>a. s = a @ suffix)"
  unfolding endswith_def
  by (metis append_eq_conv_conj append_take_drop_id diff_add_inverse2 length_append le_add2 length_drop)

lemma is_notepad_title_main_iff:
  "is_notepad_title_main t \<longleftrightarrow> py_in ''notepad'' (py_lower t) \<and> \<not> is_impostor t"
proof -
  have "py_lower t = ''notepad'' \<Longrightarrow> py_in ''notepad'' (py_lower t)"
    by simp
  moreover have "endswith (py_lower t) '' - notepad'' \<Longrightarrow> py_in ''notepad'' (py_lower t)"
  proof -
    assume "endswith (py_lower t) '' - notepad''"
    then obtain a where "py_lower t = a @ '' - notepad''" unfolding endswith_iff by blast
    then have "py_lower t = (a @ '' - '') @ ''notepad'' @ []" by simp
    then show ?thesis unfolding py_in_iff by blast
  qed
  ultimately show ?thesis
    unfolding is_notepad_title_main_def is_impostor_def Let_def by blast
qed

text \<open>
  Claim C3, as amended. Of the windows that the title query lists,
  \<open>get_notepad_windows\<close> of \<^verbatim>\<open>src/notepad.py\<close> keeps exactly those whose lowered title
  is "notepad" or ends with " - notepad", with no impostor list; the one of \<^verbatim>\<open>main.py\<close>
  keeps exactly those whose lowered title contains "notepad" and none of "cursor", "code",
  "editor". Both exclude "Notepad++ Editor" and include "Untitled - Notepad".
\<close>

theorem window_filter_rules:
  "(win \<in> set (fst (get_notepad_windows E w)) \<longleftrightarrow>
      win \<in> set (windows_with_title E w ''Notepad'') \<and>
      (py_lower (title win) = ''notepad'' \<or> (\<exists>a. py_lower (title win) = a @ '' - notepad''))) \<and>
   (win \<in> set (fst (get_notepad_windows_main E w)) \<longleftrightarrow>
      win \<in> set (windows_with_title E w ''Notepad'') \<and>
      (\<exists>a b. py_lower (title win) = a @ ''notepad'' @ b) \<and> \<not> is_impostor (title win)) \<and>
   \<not> is_notepad_title ''Notepad++ Editor'' \<and> is_notepad_title ''Untitled - Notepad'' \<and>
   \<not> is_notepad_title_main ''Notepad++ Editor'' \<and> is_notepad_title_main ''Untitled - Notepad''"
proof -
  have 1: "win \<in> set (fst (get_notepad_windows E w)) \<longleftrightarrow>
      win \<in> set (windows_with_title E w ''Notepad'') \<and>
      (py_lower (title win) = ''notepad'' \<or> (\<exists>a. py_lower (title win) = a @ '' - notepad''))"
    by (auto simp: get_notepad_windows_def is_notepad_title_def endswith_iff)
  have 2: "win \<in> set (fst (get_notepad_windows_main E w)) \<longleftrightarrow>
      win \<in> set (windows_with_title E w ''Notepad'') \<and>
      (\<exists>a b. py_lower (title win) = a @ ''notepad'' @ b) \<and> \<not> is_impostor (title win)"
    by (auto simp: get_notepad_windows_main_def is_notepad_title_main_iff py_in_iff)
  have 3: "\<not> is_notepad_title ''Notepad++ Editor''" "is_notepad_title ''Untitled - Notepad''"
    by (simp_all add: is_notepad_title_def py_lower_def lower_char_def endswith_def)
  have 4: "\<not> is_notepad_title_main ''Notepad++ Editor''" "is_notepad_title_main ''Untitled - Notepad''"
    by (simp_all add: is_notepad_title_main_def py_lower_def lower_char_def endswith_def)
  from 1 2 3 4 show ?thesis by blast
qed

text \<open>
  The claim as stated fails in both files: the filter of \<^verbatim>\<open>main.py\<close> keeps "Notepad++",
  which neither equals the filter string nor ends with " - Notepad"; the filter of
  \<^verbatim>\<open>src/notepad.py\<close> keeps "Cursor - Notepad", which contains an impostor substring.
\<close>

theorem window_filter_counterexample:
  "fst (get_notepad_windows_main (desktop no_icons blank_capture two_windows) world0)
     = [titled 1 ''Notepad++''] \<and>
   ''Notepad++'' \<noteq> ''Notepad'' \<and> \<not> endswith ''Notepad++'' '' - Notepad'' \<and>
   fst (get_notepad_windows (desktop no_icons blank_capture two_windows) world0)
     = [titled 2 ''Cursor - Notepad''] \<and>
   is_impostor ''Cursor - Notepad''"
  by (simp add: get_notepad_windows_main_def get_notepad_windows_def desktop_def two_windows_def
        titled_def is_notepad_title_main_def is_notepad_title_def is_impostor_def
        py_lower_def lower_char_def endswith_def)

section \<open>The launch\<close>




lemma launch_raises:
  "launch_notepad flicker [''A''] world0 = Some (Inl TypeError)"
  by (simp add: launch_notepad_def find_icon_def flicker_def desktop_def no_icons_def
        world0_def int_of_def)





section \<open>A save dialog that never appears\<close>





section \<open>Content and file name of a post\<close>




section \<open>The first ten posts\<close>

text \<open>
  Claim C10. Whatever the fetch returned, \<^verbatim>\<open>main\<close> behaves as on its first ten posts:
  the posts after the tenth have no influence on the run. When the run ends without an
  exception, the posts it announced (one "Processing Post ID" line for each post it
  started on) are exactly the first ten of the list, in order.
\<close>

theorem only_first_ten_posts:
  "main E ts (Some posts) w = main E ts (Some (take 10 posts)) w \<and>
   (ts \<noteq> [] \<and> main E ts (Some posts) w = Inr w' \<longrightarrow>
      (\<exists>es. w' = emits es w \<and> announcements es = map announcement (take 10 posts)))"
  using main_take[of E ts posts w] main_announces[of ts E posts w w'] by blast

theorem only_first_ten_posts_witness:
  "length eleven_posts = 11 \<and>
   (\<exists>w' es. main (desktop no_icons blank_capture no_windows) [(''A'', template_A)]
               (Some eleven_posts) world0 = Inr w' \<and>
             w' = emits es world0 \<and>
             announcements es = map announcement (take 10 eleven_posts) \<and>
             length (announcements es) = 10)"
proof -
  let ?E = "desktop no_icons blank_capture no_windows"
  let ?ts = "[(''A'', template_A)]"
  have "colour_8bit ?ts"
    by (simp add: colour_8bit_def template_A_def cvtColor_raises_def matchTemplate_raises_def)
  from main_total[OF this, of ?E "Some eleven_posts" world0] obtain w' where
    m: "main ?E ?ts (Some eleven_posts) world0 = Inr w'" by blast
  have len: "length eleven_posts = 11" by (simp add: eleven_posts_def)
  from only_first_ten_posts[of ?E ?ts eleven_posts world0 w'] m
  obtain es where es: "w' = emits es world0"
      "announcements es = map announcement (take 10 eleven_posts)" by auto
  from es(2) len have "length (announcements es) = 10" by simp
  with m es len show ?thesis by blast
qed

section \<open>The coordinate cache\<close>

text \<open>
  Claim C7. The cache is one slot. After \<open>set_cache c\<close> and then \<open>invalidate_cache\<close> the
  slot reads "not found"; a \<open>set_cache c'\<close> after an invalidation is read back as \<open>c'\<close>;
  a second \<open>set_cache\<close> replaces the value of the first. The reader of the slot is
  \<open>find_icon\<close> with \<open>use_cache\<close>: on a filled slot it returns the cached coordinate
  without any call to the bot.
\<close>

theorem cache_single_slot:
  "icon_cache (invalidate_cache (set_cache c w)) = None \<and>
   icon_cache (set_cache c' (invalidate_cache w)) = Some c' \<and>
   icon_cache (set_cache c' (set_cache c w)) = Some c' \<and>
   find_icon E ls True False (set_cache c' (invalidate_cache w))
     = Inr (Some c', set_cache c' (invalidate_cache w))"
  by (cases c') (simp add: set_cache_def invalidate_cache_def find_icon_def)

end
